theory Spec2Isabelle
  imports Main "HOL-Library.Sublist"
begin

section \<open>Characters and strings as the two scripts use them\<close>

text \<open>
  Python \<open>str\<close> values are modelled as \<open>string\<close> (a list of 8-bit characters). The
  character classes below are the ASCII part of what \<open>str.isspace\<close>, \<open>\<^verbatim>\<open>\s\<close>\<close>,
  \<open>\<^verbatim>\<open>\d\<close>\<close>, \<open>\<^verbatim>\<open>\w\<close>\<close>, \<open>str.upper\<close> and \<open>str.lower\<close> do; a character outside
  ASCII is neither a space, a digit nor a letter here and has no case.
\<close>

definition is_space :: "char \<Rightarrow> bool" where
  "is_space c = (c \<in> set [CHR 0x09, CHR 0x0A, CHR 0x0B, CHR 0x0C, CHR 0x0D,
                           CHR 0x1C, CHR 0x1D, CHR 0x1E, CHR 0x1F, CHR '' ''])"

definition is_digit :: "char \<Rightarrow> bool" where
  "is_digit c = (c \<in> set ''0123456789'')"

definition is_upper :: "char \<Rightarrow> bool" where
  "is_upper c = (c \<in> set ''ABCDEFGHIJKLMNOPQRSTUVWXYZ'')"

definition is_lower :: "char \<Rightarrow> bool" where
  "is_lower c = (c \<in> set ''abcdefghijklmnopqrstuvwxyz'')"

definition is_alnum :: "char \<Rightarrow> bool" where
  "is_alnum c = (is_upper c \<or> is_lower c \<or> is_digit c)"

definition is_word :: "char \<Rightarrow> bool" where
  "is_word c = (is_alnum c \<or> c = CHR ''_'')"

definition lower_char :: "char \<Rightarrow> char" where
  "lower_char c =
     (case map_of (zip ''ABCDEFGHIJKLMNOPQRSTUVWXYZ'' ''abcdefghijklmnopqrstuvwxyz'') c of
        Some d \<Rightarrow> d | None \<Rightarrow> c)"

definition upper_char :: "char \<Rightarrow> char" where
  "upper_char c =
     (case map_of (zip ''abcdefghijklmnopqrstuvwxyz'' ''ABCDEFGHIJKLMNOPQRSTUVWXYZ'') c of
        Some d \<Rightarrow> d | None \<Rightarrow> c)"

definition str_lower :: "string \<Rightarrow> string" where
  "str_lower s = map lower_char s"

definition str_upper :: "string \<Rightarrow> string" where
  "str_upper s = map upper_char s"

text \<open>\<open>s.strip()\<close>: whitespace removed at both ends.\<close>

definition str_strip :: "string \<Rightarrow> string" where
  "str_strip s = rev (dropWhile is_space (rev (dropWhile is_space s)))"

text \<open>\<open>needle in hay\<close> on strings: \<open>needle\<close> occurs as a contiguous piece of \<open>hay\<close>.\<close>

fun str_contains :: "string \<Rightarrow> string \<Rightarrow> bool" where
  "str_contains needle [] = (needle = [])"
| "str_contains needle (c # cs) = (prefix needle (c # cs) \<or> str_contains needle cs)"

text \<open>\<open>s.split()[0]\<close> without arguments: the first run of non-space characters;
  Python raises \<open>IndexError\<close> when there is none, which is \<open>None\<close> here.\<close>

definition first_token :: "string \<Rightarrow> string option" where
  "first_token s =
     (let t = takeWhile (\<lambda>c. \<not> is_space c) (dropWhile is_space s)
      in if t = [] then None else Some t)"

text \<open>\<open>sep.join(parts)\<close>.\<close>

fun str_join :: "string \<Rightarrow> string list \<Rightarrow> string" where
  "str_join sep [] = []"
| "str_join sep [p] = p"
| "str_join sep (p # q # ps) = p @ sep @ str_join sep (q # ps)"

text \<open>\<open>text.splitlines()\<close>: the line boundaries of ASCII are LF, CR, CR LF, VT, FF, FS,
  GS and RS; a final boundary opens no further line.\<close>

definition is_linebreak :: "char \<Rightarrow> bool" where
  "is_linebreak c = (c \<in> set [CHR 0x0A, CHR 0x0B, CHR 0x0C, CHR 0x0D, CHR 0x1C, CHR 0x1D, CHR 0x1E])"

fun splitlines_acc :: "string \<Rightarrow> string \<Rightarrow> string list" where
  "splitlines_acc cur [] = (if cur = [] then [] else [rev cur])"
| "splitlines_acc cur [c] = (if is_linebreak c then [rev cur] else [rev (c # cur)])"
| "splitlines_acc cur (c # d # cs) =
     (if c = CHR 0x0D \<and> d = CHR 0x0A then rev cur # splitlines_acc [] cs
      else if is_linebreak c then rev cur # splitlines_acc [] (d # cs)
      else splitlines_acc (c # cur) (d # cs))"

definition splitlines :: "string \<Rightarrow> string list" where
  "splitlines s = splitlines_acc [] s"

text \<open>\<open>[ln.strip() for ln in text.splitlines() if ln.strip()]\<close>, the line list both
  scripts work on.\<close>

definition nonblank_lines :: "string \<Rightarrow> string list" where
  "nonblank_lines text = map str_strip (filter (\<lambda>ln. str_strip ln \<noteq> []) (splitlines text))"

section \<open>Regular expressions: a backtracking matcher\<close>

text \<open>
  The patterns of the scripts are built from single-character classes, sequence, the
  greedy \<open>*\<close> and \<open>?\<close>, the word boundary \<open>\<^verbatim>\<open>\b\<close>\<close> and \<open>$\<close>. A cursor is the text
  before the position (reversed) and the text after it. \<open>rmatch r cur\<close> lists the
  cursors at which a match of \<open>r\<close> started at \<open>cur\<close> can end, in the order in which
  Python's backtracking matcher tries them (the longer iteration first). An iteration
  of \<open>*\<close> that consumes nothing is not repeated; every \<open>*\<close> of the scripts stands on a
  character class, which always consumes. \<open>Eol\<close> is \<open>$\<close>: the end of the string, or the
  place before a line feed that ends the string.
\<close>

datatype rx = Eps | Sym "char \<Rightarrow> bool" | Seq rx rx | Star rx | Opt rx | Bnd | Eol

type_synonym cursor = "string \<times> string"

definition at_boundary :: "cursor \<Rightarrow> bool" where
  "at_boundary cur =
     (case cur of (bef, aft) \<Rightarrow>
        (case bef of [] \<Rightarrow> False | b # _ \<Rightarrow> is_word b) \<noteq>
        (case aft of [] \<Rightarrow> False | a # _ \<Rightarrow> is_word a))"

function rmatch :: "rx \<Rightarrow> cursor \<Rightarrow> cursor list" where
  "rmatch Eps cur = [cur]"
| "rmatch (Sym P) (bef, aft) =
     (case aft of [] \<Rightarrow> [] | c # cs \<Rightarrow> if P c then [(c # bef, cs)] else [])"
| "rmatch (Seq r1 r2) cur = concat (map (rmatch r2) (rmatch r1 cur))"
| "rmatch (Star r) cur =
     concat (map (rmatch (Star r))
                 (filter (\<lambda>c'. length (snd c') < length (snd cur)) (rmatch r cur))) @ [cur]"
| "rmatch (Opt r) cur = rmatch r cur @ [cur]"
| "rmatch Bnd cur = (if at_boundary cur then [cur] else [])"
| "rmatch Eol (bef, aft) = (if aft = [] \<or> aft = [CHR 0x0A] then [(bef, aft)] else [])"
  by pat_completeness auto
termination
  by (relation "measures [\<lambda>(r, c). size r, \<lambda>(r, c). length (snd c)]") auto

text \<open>A pattern is written as the part before its capturing group and the group, which
  ends every pattern that has one; \<open>captured\<close> is \<open>m.group(1)\<close>.\<close>

definition captured :: "cursor \<Rightarrow> cursor \<Rightarrow> string" where
  "captured c1 c2 = take (length (snd c1) - length (snd c2)) (snd c1)"

definition match_here :: "rx \<Rightarrow> rx \<Rightarrow> cursor \<Rightarrow> string option" where
  "match_here p g cur =
     (case concat (map (\<lambda>c1. map (captured c1) (rmatch g c1)) (rmatch p cur)) of
        [] \<Rightarrow> None | x # _ \<Rightarrow> Some x)"

text \<open>\<open>re.search\<close>: the leftmost start position that matches wins.\<close>

fun re_search_from :: "rx \<Rightarrow> rx \<Rightarrow> string \<Rightarrow> string \<Rightarrow> string option" where
  "re_search_from p g bef [] = match_here p g (bef, [])"
| "re_search_from p g bef (c # cs) =
     (case match_here p g (bef, c # cs) of
        Some x \<Rightarrow> Some x
      | None \<Rightarrow> re_search_from p g (c # bef) cs)"

definition re_search :: "rx \<Rightarrow> rx \<Rightarrow> string \<Rightarrow> string option" where
  "re_search p g s = re_search_from p g [] s"

text \<open>\<open>re.match\<close> tries the start of the string only; \<open>re.fullmatch\<close> also asks the match
  to end at the end of the string.\<close>

definition re_match :: "rx \<Rightarrow> string \<Rightarrow> bool" where
  "re_match r s = (rmatch r ([], s) \<noteq> [])"

definition re_fullmatch :: "rx \<Rightarrow> string \<Rightarrow> bool" where
  "re_fullmatch r s = (\<exists>c \<in> set (rmatch r ([], s)). snd c = [])"

text \<open>Pattern pieces: a literal character, a literal character under
  \<open>re.IGNORECASE\<close>, literal strings, \<open>r+\<close>.\<close>

definition chr :: "char \<Rightarrow> rx" where
  "chr x = Sym (\<lambda>c. c = x)"

definition chr_i :: "char \<Rightarrow> rx" where
  "chr_i x = Sym (\<lambda>c. lower_char c = lower_char x)"

definition lit_i :: "string \<Rightarrow> rx" where
  "lit_i s = foldr (\<lambda>x r. Seq (chr_i x) r) s Eps"

definition rx_plus :: "rx \<Rightarrow> rx" where
  "rx_plus r = Seq r (Star r)"

definition seqs :: "rx list \<Rightarrow> rx" where
  "seqs rs = foldr Seq rs Eps"

definition rx_digit :: rx where "rx_digit = Sym is_digit"
definition rx_space :: rx where "rx_space = Sym is_space"

text \<open>\<open>\<^verbatim>\<open>\d{1,2}/\d{1,2}/\d{4}\<close>\<close>\<close>

definition rx_mdy :: rx where
  "rx_mdy = seqs [rx_digit, Opt rx_digit, chr CHR ''/'', rx_digit, Opt rx_digit, chr CHR ''/'',
                  rx_digit, rx_digit, rx_digit, rx_digit]"

text \<open>\<open>\<^verbatim>\<open>[0-9,]+\.\d{2}\<close>\<close>, which is also \<open>\<^verbatim>\<open>[\d,]+\.\d{2}\<close>\<close>\<close>

definition rx_money :: rx where
  "rx_money = seqs [rx_plus (Sym (\<lambda>c. is_digit c \<or> c = CHR '','')), chr CHR ''.'', rx_digit, rx_digit]"

text \<open>\<open>re.split(r"\s{2,}", s)[0]\<close>: the text before the first run of two or more
  spaces (the whole string when there is none).\<close>

fun first_part :: "string \<Rightarrow> string" where
  "first_part [] = []"
| "first_part [c] = [c]"
| "first_part (c # d # cs) = (if is_space c \<and> is_space d then [] else c # first_part (d # cs))"

text \<open>\<open>re.sub(r"\s+", " ", s)\<close>: every maximal run of spaces becomes one blank.\<close>

function collapse_ws :: "string \<Rightarrow> string" where
  "collapse_ws [] = []"
| "collapse_ws (c # cs) =
     (if is_space c then CHR '' '' # collapse_ws (dropWhile is_space cs)
      else c # collapse_ws cs)"
  by pat_completeness auto
termination
  by (relation "measure length") (auto simp: length_dropWhile_le less_Suc_eq_le)

section \<open>Errors, dates and the calls to other libraries\<close>

text \<open>The exceptions the two scripts can raise; \<open>ValueError\<close> carries its message (for the one
  raised inside \<open>datetime.strptime\<close> the message is shortened to \<open>strptime\<close>).\<close>

datatype error = ValueError string | IndexError | SystemExit string

record datetime =
  year :: nat
  month :: nat
  day :: nat
  hour :: nat
  minute :: nat
  second :: nat

definition digit_val :: "char \<Rightarrow> nat" where
  "digit_val c = of_char c - 48"

definition nat_of_digits :: "string \<Rightarrow> nat" where
  "nat_of_digits s = foldl (\<lambda>n c. 10 * n + digit_val c) 0 s"

definition is_leap :: "nat \<Rightarrow> bool" where
  "is_leap y = (y mod 4 = 0 \<and> (y mod 100 \<noteq> 0 \<or> y mod 400 = 0))"

definition days_in_month :: "nat \<Rightarrow> nat \<Rightarrow> nat" where
  "days_in_month y m =
     (if m = 2 then (if is_leap y then 29 else 28)
      else if m \<in> set [4, 6, 9, 11] then 30 else 31)"

text \<open>
  \<open>datetime.strptime(s, "%m/%d/%Y")\<close> of the standard library. The directive \<open>%m\<close> reads
  \<open>1[0-2]|0[1-9]|[1-9]\<close>, \<open>%d\<close> reads \<open>3[01]|[12]\d|0[1-9]|[1-9]| [1-9]\<close>, \<open>%Y\<close> reads four
  digits, nothing may remain, and the date must exist (years start at 1). Every failure
  is a \<open>ValueError\<close>.
\<close>

definition month_ok :: "string \<Rightarrow> bool" where
  "month_ok ms = (ms \<noteq> [] \<and> length ms \<le> 2 \<and> list_all is_digit ms \<and>
                  1 \<le> nat_of_digits ms \<and> nat_of_digits ms \<le> 12)"

definition day_ok :: "string \<Rightarrow> bool" where
  "day_ok ds = ((ds \<noteq> [] \<and> length ds \<le> 2 \<and> list_all is_digit ds \<and>
                 1 \<le> nat_of_digits ds \<and> nat_of_digits ds \<le> 31) \<or>
                (\<exists>c \<in> set ''123456789''. ds = [CHR '' '', c]))"

definition strptime_mdy :: "string \<Rightarrow> error + datetime" where
  "strptime_mdy s =
     (let ms = takeWhile (\<lambda>c. c \<noteq> CHR ''/'') s;
          r1 = drop (Suc (length ms)) s;
          ds = takeWhile (\<lambda>c. c \<noteq> CHR ''/'') r1;
          ys = drop (Suc (length ds)) r1;
          y = nat_of_digits ys;
          m = nat_of_digits ms;
          d = nat_of_digits (dropWhile (\<lambda>c. c = CHR '' '') ds)
      in if length ms < length s \<and> length ds < length r1 \<and> month_ok ms \<and> day_ok ds \<and>
            length ys = 4 \<and> list_all is_digit ys \<and> 1 \<le> y \<and> d \<le> days_in_month y m
         then Inr \<lparr>year = y, month = m, day = d, hour = 0, minute = 0, second = 0\<rparr>
         else Inl (ValueError ''strptime''))"

text \<open>\<open>dt.strftime("%Y-%m-%d")\<close>, each field padded with zeros to its width (what the C
  library prints for a year below 1000 differs between platforms; here it is padded too).\<close>

fun show_digits :: "nat \<Rightarrow> nat \<Rightarrow> string" where
  "show_digits 0 n = []"
| "show_digits (Suc w) n = show_digits w (n div 10) @ [char_of (48 + n mod 10)]"

definition strftime_ymd :: "datetime \<Rightarrow> string" where
  "strftime_ymd dt =
     show_digits 4 (year dt) @ ''-'' @ show_digits 2 (month dt) @ ''-'' @ show_digits 2 (day dt)"

text \<open>
  What the scripts get from outside: the text of each page as \<open>pdfplumber\<close> extracts it
  (\<open>None\<close> for a page without text), \<open>dateutil\<close>'s fuzzy parser (a function from the
  text to a date, \<open>None\<close> when it raises), and what rendering the first page and
  recognising its top band gives. \<open>os.rename\<close> is recorded in a log of the renames done.
\<close>

type_synonym pages = "string option list"
type_synonym fuzzy_parser = "string \<Rightarrow> datetime option"
datatype ocr_outcome = Ocr_raises | Ocr_no_images | Ocr_text string
type_synonym renames = "(string \<times> string) list"

definition pages_text :: "pages \<Rightarrow> string" where
  "pages_text pdf = str_join [CHR 0x0A] (map (\<lambda>p. case p of None \<Rightarrow> [] | Some t \<Rightarrow> t) pdf)"

section \<open>posixpath\<close>

definition path_tail :: "string \<Rightarrow> string" where
  "path_tail p = rev (takeWhile (\<lambda>c. c \<noteq> CHR ''/'') (rev p))"

definition path_head :: "string \<Rightarrow> string" where
  "path_head p =
     (let h = take (length p - length (path_tail p)) p
      in if h \<noteq> [] \<and> \<not> list_all (\<lambda>c. c = CHR ''/'') h
         then rev (dropWhile (\<lambda>c. c = CHR ''/'') (rev h)) else h)"

definition basename :: "string \<Rightarrow> string" where
  "basename p = path_tail p"

definition dirname :: "string \<Rightarrow> string" where
  "dirname p = path_head p"

definition path_split :: "string \<Rightarrow> string \<times> string" where
  "path_split p = (path_head p, path_tail p)"

definition path_join :: "string \<Rightarrow> string \<Rightarrow> string" where
  "path_join a b =
     (if prefix ''/'' b then b
      else if a = [] \<or> suffix ''/'' a then a @ b
      else a @ ''/'' @ b)"

text \<open>\<open>os.path.splitext\<close>: the extension starts at the last dot of the last path component,
  unless only dots come before it in that component.\<close>

definition splitext :: "string \<Rightarrow> string \<times> string" where
  "splitext p =
     (let name = path_tail p;
          e = rev (takeWhile (\<lambda>c. c \<noteq> CHR ''.'') (rev name));
          stem = take (length name - length e - 1) name
      in if length e < length name \<and> \<not> list_all (\<lambda>c. c = CHR ''.'') stem
         then (take (length p - length e - 1) p, CHR ''.'' # e)
         else (p, []))"

section \<open>The invoice script\<close>

text \<open>\<open>COMPANY_NORMALIZATION\<close>: a dictionary, iterated in the order of its declaration.\<close>

definition COMPANY_NORMALIZATION :: "(string \<times> string) list" where
  "COMPANY_NORMALIZATION =
     [(''meriwether pest & wildlife'', ''Meriwether''),
      (''meriwether pest'', ''Meriwether''),
      (''meriwether'', ''Meriwether'')]"

text \<open>The loop \<open>for key, short in items: if key in lower: return short\<close>.\<close>

fun first_alias :: "(string \<times> string) list \<Rightarrow> string \<Rightarrow> string option" where
  "first_alias [] lower = None"
| "first_alias ((key, short) # items) lower =
     (if str_contains key lower then Some short else first_alias items lower)"

text \<open>\<open>normalize_company_name\<close>; its argument is \<open>None\<close> when no company line was found.\<close>

definition normalize_company_name :: "string option \<Rightarrow> error + string" where
  "normalize_company_name name_opt =
     (case name_opt of
        None \<Rightarrow> Inr ''Unknown''
      | Some name \<Rightarrow>
          if name = [] then Inr ''Unknown''
          else (case first_alias COMPANY_NORMALIZATION (str_lower name) of
                  Some short \<Rightarrow> Inr short
                | None \<Rightarrow> (case first_token name of
                             None \<Rightarrow> Inl IndexError
                           | Some w \<Rightarrow> Inr w)))"

record invoice_fields =
  company_name :: "string option"
  service_date :: datetime
  invoice_number :: "string option"
  amount :: "string option"
  raw_text :: string

text \<open>Step 1 of \<open>extract_invoice_fields\<close>: the company name above the first line that
  starts with INVOICE. \<open>walk_up\<close> is the inner loop over the lines above the anchor,
  nearest first; \<open>find_anchor\<close> is the outer loop, which keeps the lines it has passed.\<close>

definition is_metadata_label :: "string \<Rightarrow> bool" where
  "is_metadata_label cand =
     (prefix ''ACCOUNT #'' (str_upper cand) \<or> prefix ''PO #'' (str_upper cand) \<or>
      prefix ''DATE'' (str_upper cand))"

fun walk_up :: "string list \<Rightarrow> string option" where
  "walk_up [] = None"
| "walk_up (l # ups) =
     (let cand = str_strip l
      in if cand \<noteq> [] \<and> \<not> is_metadata_label cand then Some cand else walk_up ups)"

definition is_anchor :: "string \<Rightarrow> bool" where
  "is_anchor line = prefix ''INVOICE'' (str_upper line)"

fun find_anchor :: "string list \<Rightarrow> string list \<Rightarrow> string option" where
  "find_anchor ups [] = None"
| "find_anchor ups (line # rest) =
     (if is_anchor line then walk_up ups else find_anchor (line # ups) rest)"

definition find_company_name :: "string list \<Rightarrow> string option" where
  "find_company_name lines =
     (case find_anchor [] lines of
        Some cand \<Rightarrow> Some cand
      | None \<Rightarrow> (case lines of [] \<Rightarrow> None | l # _ \<Rightarrow> Some l))"

text \<open>Step 2, first strategy: the line after the first line that contains
  \<open>Service Date\<close>, up to its first wide gap, read by the fuzzy parser.\<close>

fun service_date_lookahead :: "fuzzy_parser \<Rightarrow> string list \<Rightarrow> datetime option" where
  "service_date_lookahead fuzzy [] = None"
| "service_date_lookahead fuzzy (line # rest) =
     (if str_contains ''Service Date'' line
      then (case rest of [] \<Rightarrow> None | next_line # _ \<Rightarrow> fuzzy (first_part next_line))
      else service_date_lookahead fuzzy rest)"

text \<open>The loops \<open>for line in lines: m = re.search(...); if m: ...; break\<close>: the group of
  the first line that matches. The loop over the patterns of \<open>extract_amount\<close> has the
  same shape.\<close>

fun first_line_match :: "(string \<Rightarrow> string option) \<Rightarrow> string list \<Rightarrow> string option" where
  "first_line_match f [] = None"
| "first_line_match f (line # rest) =
     (case f line of Some g \<Rightarrow> Some g | None \<Rightarrow> first_line_match f rest)"

text \<open>\<open>\<^verbatim>\<open>\bDATE\s+(\d{1,2}/\d{1,2}/\d{4})\<close>\<close>, ignoring case\<close>

definition search_date_label :: "string \<Rightarrow> string option" where
  "search_date_label line = re_search (seqs [Bnd, lit_i ''DATE'', rx_plus rx_space]) rx_mdy line"

text \<open>\<open>\<^verbatim>\<open>INVOICE\s*#\s*([A-Za-z0-9\-]+)\<close>\<close>, ignoring case\<close>

definition search_invoice_number :: "string \<Rightarrow> string option" where
  "search_invoice_number line =
     re_search (seqs [lit_i ''INVOICE'', Star rx_space, chr CHR ''#'', Star rx_space])
               (rx_plus (Sym (\<lambda>c. is_alnum c \<or> c = CHR ''-''))) line"

text \<open>\<open>\<^verbatim>\<open>#\s*([0-9]{4,})\<close>\<close>\<close>

definition search_hash_number :: "string \<Rightarrow> string option" where
  "search_hash_number line =
     re_search (seqs [chr CHR ''#'', Star rx_space])
               (seqs [rx_digit, rx_digit, rx_digit, rx_digit, Star rx_digit]) line"

text \<open>\<open>\<^verbatim>\<open>Subtotal\s+\$?([0-9,]+\.\d{2})\<close>\<close>, ignoring case\<close>

definition search_subtotal :: "string \<Rightarrow> string option" where
  "search_subtotal line =
     re_search (seqs [lit_i ''Subtotal'', rx_plus rx_space, Opt (chr CHR ''$'')]) rx_money line"

text \<open>Step 2 as a whole: the lookahead, then the labelled numeric date (whose
  \<open>strptime\<close> may raise), then \<open>ValueError\<close>.\<close>

definition find_service_date :: "fuzzy_parser \<Rightarrow> string list \<Rightarrow> error + datetime" where
  "find_service_date fuzzy lines =
     (case service_date_lookahead fuzzy lines of
        Some dt \<Rightarrow> Inr dt
      | None \<Rightarrow>
          (case first_line_match search_date_label lines of
             Some tok \<Rightarrow> strptime_mdy tok
           | None \<Rightarrow> Inl (ValueError ''Could not find service date'')))"

definition find_invoice_number :: "string list \<Rightarrow> string option" where
  "find_invoice_number lines =
     (case first_line_match search_invoice_number lines of
        Some n \<Rightarrow> Some n
      | None \<Rightarrow> first_line_match search_hash_number lines)"

text \<open>The body of \<open>extract_invoice_fields\<close> from the line list on, and the function itself.\<close>

definition fields_of_lines :: "fuzzy_parser \<Rightarrow> string \<Rightarrow> string list \<Rightarrow> error + invoice_fields" where
  "fields_of_lines fuzzy text lines =
     (case find_service_date fuzzy lines of
        Inl e \<Rightarrow> Inl e
      | Inr dt \<Rightarrow>
          Inr \<lparr>company_name = find_company_name lines,
               service_date = dt,
               invoice_number = find_invoice_number lines,
               amount = first_line_match search_subtotal lines,
               raw_text = text\<rparr>)"

definition extract_invoice_fields :: "fuzzy_parser \<Rightarrow> pages \<Rightarrow> error + invoice_fields" where
  "extract_invoice_fields fuzzy pdf =
     (let text = pages_text pdf in fields_of_lines fuzzy text (nonblank_lines text))"

definition sanitize_for_filename :: "string \<Rightarrow> string" where
  "sanitize_for_filename s = map (\<lambda>c. if c = CHR ''/'' then CHR ''-'' else c) (str_strip s)"

definition build_new_filename :: "string \<Rightarrow> datetime \<Rightarrow> string \<Rightarrow> string \<Rightarrow> string" where
  "build_new_filename original_path dt short_company inv_number =
     (let (base, ext) = splitext (basename original_path);
          date_prefix = strftime_ymd dt;
          short = sanitize_for_filename short_company;
          inv_part = (if inv_number \<noteq> [] then ''Invoice #'' @ inv_number else base)
      in date_prefix @ ''-'' @ short @ ''-'' @ inv_part @ ext)"

text \<open>\<open>process_invoice\<close>: the result is the new path (or the new name in a dry run) and
  the log of renames, which an exception leaves as it was.\<close>

definition process_invoice ::
    "fuzzy_parser \<Rightarrow> pages \<Rightarrow> string \<Rightarrow> bool \<Rightarrow> renames \<Rightarrow> (error + string) \<times> renames" where
  "process_invoice fuzzy pdf pdf_path rename fs =
     (case extract_invoice_fields fuzzy pdf of
        Inl e \<Rightarrow> (Inl e, fs)
      | Inr data \<Rightarrow>
          (case normalize_company_name (company_name data) of
             Inl e \<Rightarrow> (Inl e, fs)
           | Inr short_company \<Rightarrow>
               (let new_name = build_new_filename pdf_path (service_date data) short_company
                                 (case invoice_number data of None \<Rightarrow> [] | Some n \<Rightarrow> n)
                in if rename
                   then (let new_path = path_join (dirname pdf_path) new_name
                         in (Inr new_path, fs @ [(pdf_path, new_path)]))
                   else (Inr new_name, fs))))"

section \<open>The receipt script\<close>

text \<open>The three label patterns of \<open>extract_amount\<close>, each followed by
  \<open>\<^verbatim>\<open>\s*\$?([\d,]+\.\d{2})\<close>\<close>, ignoring case.\<close>

definition search_amount :: "string \<Rightarrow> string \<Rightarrow> string option" where
  "search_amount label text =
     re_search (seqs [lit_i label, Star rx_space, Opt (chr CHR ''$'')]) rx_money text"

definition amount_labels :: "string list" where
  "amount_labels = [''PAYMENT AMOUNT'', ''AMOUNT'', ''TOTAL'']"

definition extract_amount :: "string \<Rightarrow> error + string" where
  "extract_amount text =
     (case first_line_match (\<lambda>label. search_amount label text) amount_labels of
        Some g \<Rightarrow> Inr (filter (\<lambda>c. c \<noteq> CHR '','') g)
      | None \<Rightarrow> Inl (ValueError ''Could not find payment amount in receipt text.''))"

text \<open>\<open>\<^verbatim>\<open>DATE[:\s]+(\d{1,2}/\d{1,2}/\d{4})\<close>\<close>, ignoring case, then the bare
  \<open>\<^verbatim>\<open>(\d{1,2}/\d{1,2}/\d{4})\<close>\<close>.\<close>

definition search_receipt_date_label :: "string \<Rightarrow> string option" where
  "search_receipt_date_label text =
     re_search (seqs [lit_i ''DATE'', rx_plus (Sym (\<lambda>c. c = CHR '':'' \<or> is_space c))]) rx_mdy text"

definition search_bare_date :: "string \<Rightarrow> string option" where
  "search_bare_date text = re_search Eps rx_mdy text"

text \<open>The match \<open>m\<close> of \<open>extract_date\<close>: the labelled pattern, and the bare one when the
  labelled one finds nothing.\<close>

definition find_date_match :: "string \<Rightarrow> string option" where
  "find_date_match text =
     (case search_receipt_date_label text of
        Some raw \<Rightarrow> Some raw
      | None \<Rightarrow> search_bare_date text)"

definition extract_date :: "string \<Rightarrow> error + string" where
  "extract_date text =
     (case find_date_match text of
        None \<Rightarrow> Inl (ValueError ''Could not find date in receipt text.'')
      | Some raw \<Rightarrow>
          (case strptime_mdy raw of
             Inl e \<Rightarrow> Inl e
           | Inr dt \<Rightarrow> Inr (strftime_ymd dt)))"

text \<open>A pattern without a group, searched for: is there a match.\<close>

definition re_found :: "rx \<Rightarrow> string \<Rightarrow> bool" where
  "re_found r text = (re_search Eps r text \<noteq> None)"

definition known :: "(rx \<times> string) list" where
  "known = [(seqs [Bnd, lit_i ''northwest exterminating'', Bnd], ''Northwest Exterminating''),
            (seqs [Bnd, lit_i ''northwest'', Bnd], ''Northwest'')]"

fun first_known :: "(rx \<times> string) list \<Rightarrow> string \<Rightarrow> string option" where
  "first_known [] text = None"
| "first_known ((pat, name) # rest) text =
     (if re_found pat text then Some name else first_known rest text)"

definition skip_exact :: "string list" where
  "skip_exact = [''payment'', ''receipt'', ''payment receipt'', ''confirmation'',
                 ''amount'', ''date'', ''credit card'', ''name on card'']"

definition skip_labels :: "string list" where
  "skip_labels = [''payment receipt'', ''confirmation number'', ''payment amount'',
                  ''credit card'', ''name on card'', ''date '']"

text \<open>The loop over the first ten lines; \<open>\<^verbatim>\<open>^[A-Z ]+\d+$\<close>\<close> is matched at the start
  of the line, \<open>\<^verbatim>\<open>[\d\s\-#]+\<close>\<close> against the whole line.\<close>

fun top_band :: "string list \<Rightarrow> string" where
  "top_band [] = ''Northwest''"
| "top_band (ln # rest) =
     (let norm = str_strip (collapse_ws ln); low = str_lower norm
      in if norm = [] then top_band rest
         else if low \<in> set skip_exact then top_band rest
         else if \<exists>label \<in> set skip_labels. str_contains label low then top_band rest
         else if re_match (seqs [rx_plus (Sym (\<lambda>c. is_upper c \<or> c = CHR '' '')),
                                 rx_plus rx_digit, Eol]) norm then top_band rest
         else if re_fullmatch (rx_plus (Sym (\<lambda>c. is_digit c \<or> is_space c \<or>
                                                   c = CHR ''-'' \<or> c = CHR ''#''))) norm
              then top_band rest
         else norm)"

definition extract_company_from_text :: "string \<Rightarrow> string" where
  "extract_company_from_text text =
     (case first_known known text of
        Some name \<Rightarrow> name
      | None \<Rightarrow> top_band (take 10 (nonblank_lines text)))"

definition extract_company_from_logo_ocr :: "ocr_outcome \<Rightarrow> string" where
  "extract_company_from_logo_ocr ocr =
     (case ocr of
        Ocr_raises \<Rightarrow> ''Unknown''
      | Ocr_no_images \<Rightarrow> ''Unknown''
      | Ocr_text ocr_text \<Rightarrow>
          if re_found (lit_i ''northwest exterminating'') ocr_text then ''Northwest Exterminating''
          else if re_found (lit_i ''northwest'') ocr_text then ''Northwest''
          else ''Unknown'')"

definition extract_company :: "string \<Rightarrow> ocr_outcome \<Rightarrow> string" where
  "extract_company text ocr =
     (let company = extract_company_from_text text
      in if company \<noteq> ''Unknown'' then company
         else (let company_ocr = extract_company_from_logo_ocr ocr
               in if company_ocr \<noteq> ''Unknown'' then company_ocr else ''Unknown''))"

text \<open>\<open>re.sub(r"[^A-Za-z0-9]+", "", company)\<close> deletes every character that is not a
  letter or a digit.\<close>

definition sanitize_company :: "string \<Rightarrow> string" where
  "sanitize_company company =
     (let cleaned = filter is_alnum company in if cleaned = [] then ''Unknown'' else cleaned)"

record receipt_result =
  fileName :: string
  company :: string
  amount_paid :: string
  date_iso :: string

text \<open>\<open>main\<close>, from the absolute path on: \<open>isfile\<close> says whether the path is a file.\<close>

definition main ::
    "bool \<Rightarrow> pages \<Rightarrow> ocr_outcome \<Rightarrow> string \<Rightarrow> renames \<Rightarrow> (error + receipt_result) \<times> renames" where
  "main isfile pdf ocr pdf_path fs =
     (if \<not> isfile then (Inl (SystemExit (''File not found: '' @ pdf_path)), fs)
      else
        (let text = pages_text pdf
         in case extract_amount text of
              Inl e \<Rightarrow> (Inl e, fs)
            | Inr amt \<Rightarrow>
                (case extract_date text of
                   Inl e \<Rightarrow> (Inl e, fs)
                 | Inr date_str \<Rightarrow>
                     (let comp = extract_company text ocr;
                          company_for_file = sanitize_company comp;
                          (dirpath, old_name) = path_split pdf_path;
                          ext0 = snd (splitext old_name);
                          ext = (if ext0 = [] then ''.pdf'' else ext0);
                          new_name = date_str @ ''-'' @ company_for_file @ ext;
                          new_path = path_join dirpath new_name
                      in (Inr \<lparr>fileName = new_path, company = comp,
                                 amount_paid = amt, date_iso = date_str\<rparr>,
                          fs @ [(pdf_path, new_path)])))))"

section \<open>Vendor normalization\<close>

lemma first_alias_index:
  "i < length table \<Longrightarrow> str_contains (fst (table ! i)) low \<Longrightarrow>
   (\<forall>j<i. \<not> str_contains (fst (table ! j)) low) \<Longrightarrow>
   first_alias table low = Some (snd (table ! i))"
proof (induction table arbitrary: i)
  case Nil
  then show ?case by simp
next
  case (Cons kv table)
  obtain k v where kv: "kv = (k, v)" by (cases kv)
  show ?case
  proof (cases i)
    case 0
    with Cons.prems kv show ?thesis by simp
  next
    case (Suc n)
    from Cons.prems(3) Suc have "\<not> str_contains (fst ((kv # table) ! 0)) low" by blast
    then have nk: "\<not> str_contains k low" using kv by simp
    have "\<forall>j<n. \<not> str_contains (fst (table ! j)) low"
      using Cons.prems(3) Suc by auto
    with Cons.IH [of n] Cons.prems Suc have "first_alias table low = Some (snd (table ! n))"
      by simp
    with nk kv Suc show ?thesis by simp
  qed
qed

text \<open>
  Claim C5. The alias loop returns the canonical name of the first entry, in the order
  of declaration, whose pattern occurs in the lower-cased vendor string: if entry \<open>i\<close>
  matches and no earlier entry does, the value of entry \<open>i\<close> is the result, whatever
  later entries match as well. For the table of the script and a non-empty vendor
  string this is the result of \<open>normalize_company_name\<close>.
\<close>

theorem normalize_first_declared_alias_wins:
  assumes "i < length table"
    and "str_contains (fst (table ! i)) (str_lower name)"
    and "\<forall>j<i. \<not> str_contains (fst (table ! j)) (str_lower name)"
  shows "first_alias table (str_lower name) = Some (snd (table ! i)) \<and>
         (table = COMPANY_NORMALIZATION \<and> name \<noteq> [] \<longrightarrow>
            normalize_company_name (Some name) = Inr (snd (table ! i)))"
proof -
  have fa: "first_alias table (str_lower name) = Some (snd (table ! i))"
    using assms by (rule first_alias_index)
  show ?thesis
  proof (intro conjI impI)
    show "first_alias table (str_lower name) = Some (snd (table ! i))" by (rule fa)
  next
    assume "table = COMPANY_NORMALIZATION \<and> name \<noteq> []"
    with fa show "normalize_company_name (Some name) = Inr (snd (table ! i))"
      by (simp add: normalize_company_name_def)
  qed
qed

theorem normalize_first_declared_alias_wins_witness:
  "str_contains ''meriwether pest & wildlife'' (str_lower ''Meriwether Pest & Wildlife Control'') \<and>
   str_contains ''meriwether'' (str_lower ''Meriwether Pest & Wildlife Control'') \<and>
   fst (COMPANY_NORMALIZATION ! 0) = ''meriwether pest & wildlife'' \<and>
   normalize_company_name (Some ''Meriwether Pest & Wildlife Control'') =
     Inr (snd (COMPANY_NORMALIZATION ! 0)) \<and>
   snd (COMPANY_NORMALIZATION ! 0) = ''Meriwether''"
proof -
  have h0: "0 < length COMPANY_NORMALIZATION" by code_simp
  have h1: "str_contains (fst (COMPANY_NORMALIZATION ! 0))
              (str_lower ''Meriwether Pest & Wildlife Control'')" by code_simp
  have h2: "\<forall>j<0. \<not> str_contains (fst (COMPANY_NORMALIZATION ! j))
              (str_lower ''Meriwether Pest & Wildlife Control'')" by simp
  have a: "str_contains ''meriwether pest & wildlife''
             (str_lower ''Meriwether Pest & Wildlife Control'')" by code_simp
  have b: "str_contains ''meriwether'' (str_lower ''Meriwether Pest & Wildlife Control'')"
    by code_simp
  have c: "fst (COMPANY_NORMALIZATION ! 0) = ''meriwether pest & wildlife''" by code_simp
  have d: "snd (COMPANY_NORMALIZATION ! 0) = ''Meriwether''" by code_simp
  from normalize_first_declared_alias_wins [OF h0 h1 h2]
  have "normalize_company_name (Some ''Meriwether Pest & Wildlife Control'') =
          Inr (snd (COMPANY_NORMALIZATION ! 0))" by simp
  with a b c d show ?thesis by blast
qed

text \<open>
  Claim C9. \<open>normalize_company_name\<close> is not total: on a string of three blanks no
  alias matches, \<open>name.strip().split()\<close> is the empty list, and taking its first element
  raises \<open>IndexError\<close>.
\<close>

theorem normalize_company_name_blank_raises:
  "normalize_company_name (Some ''   '') = Inl IndexError"
  by code_simp

subsection \<open>Idempotence\<close>

lemma str_contains_sublist: "str_contains needle hay = sublist needle hay"
  by (induction hay) (simp_all add: sublist_Cons_right)

lemma sublist_trans': "sublist xs ys \<Longrightarrow> sublist ys zs \<Longrightarrow> sublist xs zs"
  unfolding sublist_def by (metis append.assoc)

lemma sublist_map_mono: "sublist xs ys \<Longrightarrow> sublist (map f xs) (map f ys)"
  unfolding sublist_def by (metis map_append)

lemma first_alias_None: "first_alias table low = None \<longleftrightarrow> (\<forall>kv \<in> set table. \<not> str_contains (fst kv) low)"
  by (induction table) (auto split: if_splits)

lemma first_token_Some:
  assumes "first_token s = Some w"
  shows "w \<noteq> [] \<and> (\<forall>c \<in> set w. \<not> is_space c) \<and> sublist w s"
proof -
  from assms have w: "w = takeWhile (\<lambda>c. \<not> is_space c) (dropWhile is_space s)" and ne: "w \<noteq> []"
    by (auto simp: first_token_def Let_def split: if_splits)
  have "\<forall>c \<in> set w. \<not> is_space c" unfolding w by (auto dest: set_takeWhileD)
  moreover have "sublist w s" unfolding w
    by (rule sublist_trans' [OF sublist_takeWhile sublist_dropWhile])
  ultimately show ?thesis using ne by blast
qed

lemma first_token_fixed:
  assumes "w \<noteq> []" and "\<forall>c \<in> set w. \<not> is_space c"
  shows "first_token w = Some w"
proof -
  from assms have d: "dropWhile is_space w = w" by (cases w) auto
  from assms have t: "takeWhile (\<lambda>c. \<not> is_space c) w = w" by (simp add: takeWhile_eq_all_conv)
  show ?thesis unfolding first_token_def Let_def d t using assms(1) by simp
qed

lemma first_alias_sublist:
  assumes "first_alias table (str_lower name) = None" and "sublist w name"
  shows "first_alias table (str_lower w) = None"
proof -
  { fix kv assume kv: "kv \<in> set table" and c: "str_contains (fst kv) (str_lower w)"
    from c have "sublist (fst kv) (str_lower w)" by (simp add: str_contains_sublist)
    moreover have "sublist (str_lower w) (str_lower name)"
      unfolding str_lower_def using assms(2) by (rule sublist_map_mono)
    ultimately have "str_contains (fst kv) (str_lower name)"
      by (simp add: str_contains_sublist sublist_trans')
    with assms(1) kv have False by (simp add: first_alias_None) }
  then show ?thesis by (auto simp: first_alias_None)
qed

lemma first_alias_value: "first_alias COMPANY_NORMALIZATION low = Some short \<Longrightarrow> short = ''Meriwether''"
  by (simp add: COMPANY_NORMALIZATION_def split: if_splits)

lemma normalize_Unknown: "normalize_company_name (Some ''Unknown'') = Inr ''Unknown''"
  by code_simp

lemma normalize_Meriwether: "normalize_company_name (Some ''Meriwether'') = Inr ''Meriwether''"
  by code_simp

text \<open>
  Claim C8. Whenever \<open>normalize_company_name\<close> returns a name, normalizing that name
  again returns it unchanged: the sentinel \<open>Unknown\<close> and the canonical name of the table
  are fixed points, and a first token contains no alias that the whole string did not
  contain.
\<close>

theorem normalize_idem:
  assumes "normalize_company_name n = Inr out"
  shows "normalize_company_name (Some out) = Inr out"
proof (cases n)
  case None
  with assms have "out = ''Unknown''" by (simp add: normalize_company_name_def)
  then show ?thesis by (simp only: normalize_Unknown)
next
  case (Some name)
  show ?thesis
  proof (cases "name = []")
    case True
    with assms Some have "out = ''Unknown''" by (simp add: normalize_company_name_def)
    then show ?thesis by (simp only: normalize_Unknown)
  next
    case ne: False
    show ?thesis
    proof (cases "first_alias COMPANY_NORMALIZATION (str_lower name)")
      case (Some short)
      with assms \<open>n = Some name\<close> ne have "out = short" by (simp add: normalize_company_name_def)
      with first_alias_value [OF Some] have "out = ''Meriwether''" by simp
      then show ?thesis by (simp only: normalize_Meriwether)
    next
      case None
      with assms \<open>n = Some name\<close> ne have ft: "first_token name = Some out"
        by (simp add: normalize_company_name_def split: option.splits)
      from first_token_Some [OF ft] have o: "out \<noteq> []" "\<forall>c \<in> set out. \<not> is_space c" "sublist out name"
        by blast+
      have "first_alias COMPANY_NORMALIZATION (str_lower out) = None"
        using None o(3) by (rule first_alias_sublist)
      moreover have "first_token out = Some out" using o(1,2) by (rule first_token_fixed)
      ultimately show ?thesis using o(1) by (simp add: normalize_company_name_def)
    qed
  qed
qed

theorem normalize_idem_witness:
  "normalize_company_name (Some ''Acme Pest Control'') = Inr ''Acme'' \<and>
   normalize_company_name (Some ''Acme'') = Inr ''Acme''"
proof -
  have h: "normalize_company_name (Some ''Acme Pest Control'') = Inr ''Acme''" by code_simp
  from normalize_idem [OF h] h show ?thesis by blast
qed

subsection \<open>Blank names\<close>

lemma str_contains_set:
  assumes "str_contains needle hay"
  shows "set needle \<subseteq> set hay"
proof -
  from assms have "sublist needle hay" by (simp only: str_contains_sublist)
  then show ?thesis by (rule set_mono_sublist)
qed

lemma upper_not_space: "list_all (\<lambda>c. \<not> is_space c) ''ABCDEFGHIJKLMNOPQRSTUVWXYZ''"
  by code_simp

lemma lower_space:
  assumes "is_space c"
  shows "is_space (lower_char c)"
proof (cases "map_of (zip ''ABCDEFGHIJKLMNOPQRSTUVWXYZ'' ''abcdefghijklmnopqrstuvwxyz'') c")
  case None
  then have "lower_char c = c" unfolding lower_char_def by simp
  with assms show ?thesis by simp
next
  case (Some d)
  then have "(c, d) \<in> set (zip ''ABCDEFGHIJKLMNOPQRSTUVWXYZ'' ''abcdefghijklmnopqrstuvwxyz'')"
    by (rule map_of_SomeD)
  then have "c \<in> set ''ABCDEFGHIJKLMNOPQRSTUVWXYZ''" by (rule set_zip_leftD)
  with upper_not_space [unfolded list_all_iff] have "\<not> is_space c" by (rule bspec)
  with assms show ?thesis by (rule notE [rotated])
qed

lemma first_alias_blank:
  assumes "list_all is_space name"
  shows "first_alias COMPANY_NORMALIZATION (str_lower name) = None"
proof -
  have sp: "\<forall>c \<in> set (str_lower name). is_space c"
    using assms by (auto simp: str_lower_def list_all_iff lower_space)
  have m: "\<not> is_space CHR ''m''" by (simp add: is_space_def)
  have k: "\<not> str_contains key (str_lower name)" if "CHR ''m'' \<in> set key" for key
  proof
    assume "str_contains key (str_lower name)"
    then have "set key \<subseteq> set (str_lower name)" by (rule str_contains_set)
    from this that have "CHR ''m'' \<in> set (str_lower name)" by (rule subsetD)
    with sp have "is_space CHR ''m''" by (rule bspec)
    with m show False by (rule notE)
  qed
  have k1: "\<not> str_contains ''meriwether pest & wildlife'' (str_lower name)" by (rule k) simp
  have k2: "\<not> str_contains ''meriwether pest'' (str_lower name)" by (rule k) simp
  have k3: "\<not> str_contains ''meriwether'' (str_lower name)" by (rule k) simp
  show ?thesis unfolding COMPANY_NORMALIZATION_def by (simp add: k1 k2 k3)
qed

text \<open>Every non-empty name that consists of whitespace only raises.\<close>

lemma normalize_whitespace_raises:
  assumes "name \<noteq> []" and "list_all is_space name"
  shows "normalize_company_name (Some name) = Inl IndexError"
proof -
  from assms(2) have d: "dropWhile is_space name = []" by (simp add: list_all_iff)
  have "first_token name = None" unfolding first_token_def Let_def d by simp
  with assms(1) first_alias_blank [OF assms(2)] show ?thesis
    by (simp add: normalize_company_name_def)
qed

section \<open>Vendor resolution of the receipt script\<close>

text \<open>The recognised text is consulted only when the text heuristic returns \<open>Unknown\<close>,
  which none of its own return statements does: it happens only when a line of the
  top band reads \<open>Unknown\<close>.\<close>

lemma extract_company_text_decides:
  "extract_company_from_text text \<noteq> ''Unknown'' \<Longrightarrow>
   extract_company text ocr = extract_company_from_text text"
  by (simp add: extract_company_def)

text \<open>
  Claim C4. A receipt whose text layer names no vendor (no known name, and every line of
  the top band is a label), with the recognised text of the top crop being
  \<open>Northwest Exterminating Pest Control\<close>: the text heuristic ends in its default
  \<open>Northwest\<close>, which is not the sentinel \<open>Unknown\<close>, so the recognised text is never
  consulted, although it would have given \<open>Northwest Exterminating\<close>.
\<close>

theorem ocr_fallback_not_reached:
  "extract_company_from_text (''PAYMENT AMOUNT $99.00'' @ [CHR 0x0A] @ ''DATE 01/02/2025'') =
     ''Northwest'' \<and>
   extract_company_from_logo_ocr (Ocr_text ''Northwest Exterminating Pest Control'') =
     ''Northwest Exterminating'' \<and>
   extract_company (''PAYMENT AMOUNT $99.00'' @ [CHR 0x0A] @ ''DATE 01/02/2025'')
     (Ocr_text ''Northwest Exterminating Pest Control'') = ''Northwest'' \<and>
   sanitize_company (extract_company (''PAYMENT AMOUNT $99.00'' @ [CHR 0x0A] @ ''DATE 01/02/2025'')
     (Ocr_text ''Northwest Exterminating Pest Control'')) = ''Northwest'' \<and>
   main True [Some (''PAYMENT AMOUNT $99.00'' @ [CHR 0x0A] @ ''DATE 01/02/2025'')]
     (Ocr_text ''Northwest Exterminating Pest Control'') ''/receipts/scan.pdf'' [] =
   (Inr \<lparr>fileName = ''/receipts/2025-01-02-Northwest.pdf'', company = ''Northwest'',
          amount_paid = ''99.00'', date_iso = ''2025-01-02''\<rparr>,
    [(''/receipts/scan.pdf'', ''/receipts/2025-01-02-Northwest.pdf'')])"
  by code_simp

section \<open>The vendor line of an invoice\<close>

lemma walk_up_only_labels:
  "\<forall>l \<in> set ups. is_metadata_label (str_strip l) \<Longrightarrow> walk_up ups = None"
  by (induction ups) (simp_all add: Let_def)

lemma find_anchor_first:
  "\<forall>x \<in> set pre. \<not> is_anchor x \<Longrightarrow> is_anchor a \<Longrightarrow>
   find_anchor ups (pre @ a # post) = walk_up (rev pre @ ups)"
  by (induction pre arbitrary: ups) simp_all

text \<open>
  Claim C10. When the first line that starts with INVOICE (in upper case) is the first
  line of the document, or only metadata labels (ACCOUNT #, PO #, DATE) stand before
  it, the vendor found is the first line of the document, be it the anchor or a label;
  this is the vendor of every record that \<open>extract_invoice_fields\<close> returns for such a
  line list.
\<close>

theorem vendor_falls_back_to_first_line:
  assumes "is_anchor a"
    and "\<forall>x \<in> set pre. \<not> is_anchor x \<and> is_metadata_label (str_strip x)"
  shows "find_company_name (pre @ a # post) = Some (hd (pre @ a # post)) \<and>
         (\<forall>fuzzy text r. fields_of_lines fuzzy text (pre @ a # post) = Inr r \<longrightarrow>
            company_name r = Some (hd (pre @ a # post)))"
proof -
  have "find_anchor [] (pre @ a # post) = walk_up (rev pre @ [])"
    using assms by (intro find_anchor_first) auto
  also have "\<dots> = None" using assms(2) by (intro walk_up_only_labels) auto
  finally have fa: "find_anchor [] (pre @ a # post) = None" .
  have c: "find_company_name (pre @ a # post) = Some (hd (pre @ a # post))"
    unfolding find_company_name_def fa by (cases pre) simp_all
  show ?thesis
  proof (intro conjI allI impI)
    show "find_company_name (pre @ a # post) = Some (hd (pre @ a # post))" by (rule c)
  next
    fix fuzzy raw r
    assume "fields_of_lines fuzzy raw (pre @ a # post) = Inr r"
    then have "company_name r = find_company_name (pre @ a # post)"
      by (auto simp: fields_of_lines_def split: sum.splits)
    with c show "company_name r = Some (hd (pre @ a # post))" by simp
  qed
qed

theorem vendor_falls_back_to_first_line_witness:
  "is_anchor ''Invoice #52359'' \<and>
   \<not> is_anchor ''Date 09/22/2025'' \<and> is_metadata_label (str_strip ''Date 09/22/2025'') \<and>
   find_company_name [''Date 09/22/2025'', ''Invoice #52359'', ''Subtotal $184.50''] =
     Some ''Date 09/22/2025'' \<and>
   find_company_name [''Invoice #52359'', ''Subtotal $184.50''] = Some ''Invoice #52359'' \<and>
   map_sum id company_name
     (fields_of_lines (\<lambda>s. None) [] [''Date 09/22/2025'', ''Invoice #52359'', ''Subtotal $184.50'']) =
     Inr (Some ''Date 09/22/2025'')"
proof -
  have a: "is_anchor ''Invoice #52359''" by code_simp
  have b: "\<forall>x \<in> set [''Date 09/22/2025'']. \<not> is_anchor x \<and> is_metadata_label (str_strip x)"
    by code_simp
  have b': "\<not> is_anchor ''Date 09/22/2025'' \<and> is_metadata_label (str_strip ''Date 09/22/2025'')"
    by code_simp
  have e: "\<forall>x \<in> set ([] :: string list). \<not> is_anchor x \<and> is_metadata_label (str_strip x)" by simp
  have r: "fields_of_lines (\<lambda>s. None) []
      [''Date 09/22/2025'', ''Invoice #52359'', ''Subtotal $184.50''] =
    Inr \<lparr>company_name = Some ''Date 09/22/2025'',
         service_date = \<lparr>year = 2025, month = 9, day = 22, hour = 0, minute = 0, second = 0\<rparr>,
         invoice_number = Some ''52359'', amount = Some ''184.50'', raw_text = []\<rparr>"
    by code_simp
  from vendor_falls_back_to_first_line [OF a b, of "[''Subtotal $184.50'']"] r
  have 1: "find_company_name [''Date 09/22/2025'', ''Invoice #52359'', ''Subtotal $184.50''] =
        Some ''Date 09/22/2025''"
    by simp
  from vendor_falls_back_to_first_line [OF a e, of "[''Subtotal $184.50'']"]
  have 2: "find_company_name [''Invoice #52359'', ''Subtotal $184.50''] = Some ''Invoice #52359''"
    by simp
  from a b' 1 2 r show ?thesis by simp
qed

section \<open>Required and optional fields\<close>


lemma strip_has_nonspace:
  assumes "str_strip x \<noteq> []"
  shows "\<exists>c \<in> set (str_strip x). \<not> is_space c"
proof -
  let ?z = "dropWhile is_space (rev (dropWhile is_space x))"
  from assms have z: "?z \<noteq> []" by (simp add: str_strip_def)
  then have "\<not> is_space (hd ?z)" by (rule hd_dropWhile)
  moreover from z have "hd ?z \<in> set ?z" by simp
  ultimately show ?thesis unfolding str_strip_def by (metis set_rev)
qed


lemma nonspace_first_token:
  assumes "\<exists>c \<in> set s. \<not> is_space c"
  shows "\<exists>w. first_token s = Some w"
proof -
  let ?d = "dropWhile is_space s"
  from assms have d: "?d \<noteq> []" by (simp add: dropWhile_eq_Nil_conv)
  then have "\<not> is_space (hd ?d)" by (rule hd_dropWhile)
  with d have "takeWhile (\<lambda>c. \<not> is_space c) ?d \<noteq> []" by (simp add: takeWhile_eq_Nil_iff)
  then show ?thesis by (simp add: first_token_def Let_def)
qed


lemma walk_up_Some: "walk_up ups = Some cand \<Longrightarrow> \<exists>c \<in> set cand. \<not> is_space c"
  by (induction ups) (auto simp: Let_def strip_has_nonspace split: if_splits)


lemma find_anchor_Some: "find_anchor ups lines = Some cand \<Longrightarrow> \<exists>c \<in> set cand. \<not> is_space c"
  by (induction lines arbitrary: ups) (auto simp: walk_up_Some split: if_splits)


lemma nonblank_lines_nonspace:
  "l \<in> set (nonblank_lines text) \<Longrightarrow> \<exists>c \<in> set l. \<not> is_space c"
  by (auto simp: nonblank_lines_def strip_has_nonspace)


lemma find_company_name_nonspace:
  assumes "find_company_name (nonblank_lines text) = Some cand"
  shows "\<exists>c \<in> set cand. \<not> is_space c"
proof (cases "find_anchor [] (nonblank_lines text)")
  case (Some c)
  with assms have "c = cand" by (simp add: find_company_name_def)
  with Some show ?thesis by (auto dest: find_anchor_Some)
next
  case None
  with assms obtain rest where "nonblank_lines text = cand # rest"
    by (auto simp: find_company_name_def split: list.splits)
  then have "cand \<in> set (nonblank_lines text)" by simp
  then show ?thesis by (rule nonblank_lines_nonspace)
qed


text \<open>The vendor of an invoice is never blank, so normalizing it never raises.\<close>


lemma normalize_extracted_company:
  "\<exists>short. normalize_company_name (find_company_name (nonblank_lines text)) = Inr short"
proof (cases "find_company_name (nonblank_lines text)")
  case None
  then show ?thesis by (simp add: normalize_company_name_def)
next
  case (Some cand)
  then have "\<exists>c \<in> set cand. \<not> is_space c" by (rule find_company_name_nonspace)
  then obtain w where "first_token cand = Some w" using nonspace_first_token by blast
  then show ?thesis using Some by (auto simp: normalize_company_name_def split: option.splits)
qed


lemma process_invoice_error:
  "extract_invoice_fields fuzzy pdf = Inl e \<Longrightarrow>
   process_invoice fuzzy pdf pdf_path rename fs = (Inl e, fs)"
  by (simp add: process_invoice_def)


lemma process_invoice_completes:
  assumes "extract_invoice_fields fuzzy pdf = Inr r"
  shows "\<exists>out fs'. process_invoice fuzzy pdf pdf_path rename fs = (Inr out, fs')"
proof -
  from assms have "company_name r = find_company_name (nonblank_lines (pages_text pdf))"
    by (auto simp: extract_invoice_fields_def fields_of_lines_def Let_def split: sum.splits)
  with normalize_extracted_company [of "pages_text pdf"]
  obtain short where "normalize_company_name (company_name r) = Inr short" by auto
  with assms show ?thesis by (simp add: process_invoice_def Let_def)
qed


lemma first_line_match_None:
  "first_line_match f ls = None \<longleftrightarrow> (\<forall>l \<in> set ls. f l = None)"
  by (induction ls) (auto split: option.splits)


lemma first_line_match_first:
  "\<forall>x \<in> set pre. f x = None \<Longrightarrow> f l = Some g \<Longrightarrow> first_line_match f (pre @ l # post) = Some g"
  by (induction pre) simp_all


lemma find_service_date_fails:
  assumes l: "service_date_lookahead fuzzy lines = None"
    and t: "\<forall>tok. first_line_match search_date_label lines = Some tok \<longrightarrow> isl (strptime_mdy tok)"
  shows "\<exists>e. find_service_date fuzzy lines = Inl e \<and>
         (first_line_match search_date_label lines = None
            \<longrightarrow> e = ValueError ''Could not find service date'')"
proof (cases "first_line_match search_date_label lines")
  case None
  show ?thesis unfolding find_service_date_def l None by simp
next
  case (Some tok)
  with t have "isl (strptime_mdy tok)" by blast
  then obtain e where e: "strptime_mdy tok = Inl e" by (cases "strptime_mdy tok") auto
  show ?thesis unfolding find_service_date_def l Some by (simp add: e)
qed

lemma extract_date_fails:
  assumes t: "\<forall>raw. find_date_match text = Some raw \<longrightarrow> isl (strptime_mdy raw)"
  shows "\<exists>e. extract_date text = Inl e"
proof (cases "find_date_match text")
  case None
  then show ?thesis by (simp add: extract_date_def)
next
  case (Some raw)
  with t have "isl (strptime_mdy raw)" by blast
  then obtain e where e: "strptime_mdy raw = Inl e" by (cases "strptime_mdy raw") auto
  show ?thesis unfolding extract_date_def Some by (simp add: e)
qed

lemma main_date_error:
  assumes "extract_date (pages_text pdf) = Inl e"
  shows "\<exists>e'. main isfile pdf ocr pdf_path fs = (Inl e', fs)"
proof (cases isfile)
  case False
  then show ?thesis by (simp add: main_def)
next
  case True
  show ?thesis
  proof (cases "extract_amount (pages_text pdf)")
    case (Inl a)
    with True show ?thesis by (simp add: main_def)
  next
    case (Inr amt)
    with True assms show ?thesis by (simp add: main_def)
  qed
qed

text \<open>
  Claim C2. When no strategy of the date chain gives a date (the lookahead finds
  nothing and no line carries a labelled date that \<open>strptime\<close> accepts, for an invoice;
  neither pattern finds a token that \<open>strptime\<close> accepts, for a receipt), the pipeline
  ends in an exception and the log of renames is as it was: no file is renamed, no
  other date is used. For an invoice without any labelled date the exception is
  \<open>Could not find service date\<close>.
\<close>

theorem missing_date_is_terminal:
  "(service_date_lookahead fuzzy (nonblank_lines (pages_text pdf)) = None \<and>
    (\<forall>tok. first_line_match search_date_label (nonblank_lines (pages_text pdf)) = Some tok
           \<longrightarrow> isl (strptime_mdy tok))
    \<longrightarrow> (\<exists>e. process_invoice fuzzy pdf pdf_path rename fs = (Inl e, fs) \<and>
             (first_line_match search_date_label (nonblank_lines (pages_text pdf)) = None
              \<longrightarrow> e = ValueError ''Could not find service date''))) \<and>
   ((\<forall>raw. find_date_match (pages_text rpdf) = Some raw \<longrightarrow> isl (strptime_mdy raw))
    \<longrightarrow> (\<exists>e. main isfile rpdf ocr rpath rfs = (Inl e, rfs)))"
proof (intro conjI impI)
  let ?lines = "nonblank_lines (pages_text pdf)"
  assume h: "service_date_lookahead fuzzy ?lines = None \<and>
    (\<forall>tok. first_line_match search_date_label ?lines = Some tok \<longrightarrow> isl (strptime_mdy tok))"
  from h have l: "service_date_lookahead fuzzy ?lines = None" by (rule conjunct1)
  from h have t: "\<forall>tok. first_line_match search_date_label ?lines = Some tok
      \<longrightarrow> isl (strptime_mdy tok)" by (rule conjunct2)
  from find_service_date_fails [OF l t]
  obtain e where e: "find_service_date fuzzy ?lines = Inl e"
    and m: "first_line_match search_date_label ?lines = None
            \<longrightarrow> e = ValueError ''Could not find service date''"
    by (elim exE conjE)
  have "extract_invoice_fields fuzzy pdf = Inl e"
    unfolding extract_invoice_fields_def fields_of_lines_def Let_def e by simp
  then have p: "process_invoice fuzzy pdf pdf_path rename fs = (Inl e, fs)"
    by (rule process_invoice_error)
  show "\<exists>e. process_invoice fuzzy pdf pdf_path rename fs = (Inl e, fs) \<and>
             (first_line_match search_date_label ?lines = None
              \<longrightarrow> e = ValueError ''Could not find service date'')"
  proof (intro exI conjI)
    show "process_invoice fuzzy pdf pdf_path rename fs = (Inl e, fs)" by (rule p)
    show "first_line_match search_date_label ?lines = None
              \<longrightarrow> e = ValueError ''Could not find service date''" by (rule m)
  qed
next
  assume h: "\<forall>raw. find_date_match (pages_text rpdf) = Some raw \<longrightarrow> isl (strptime_mdy raw)"
  from extract_date_fails [OF h] obtain e where "extract_date (pages_text rpdf) = Inl e" ..
  then show "\<exists>e. main isfile rpdf ocr rpath rfs = (Inl e, rfs)" by (rule main_date_error)
qed

theorem missing_date_is_terminal_witness:
  "service_date_lookahead (\<lambda>s. None)
     (nonblank_lines (pages_text [Some (''Meriwether Pest'' @ [CHR 0x0A] @ ''INVOICE #52359'' @
        [CHR 0x0A] @ ''Subtotal $184.50'')])) = None \<and>
   first_line_match search_date_label
     (nonblank_lines (pages_text [Some (''Meriwether Pest'' @ [CHR 0x0A] @ ''INVOICE #52359'' @
        [CHR 0x0A] @ ''Subtotal $184.50'')])) = None \<and>
   process_invoice (\<lambda>s. None)
     [Some (''Meriwether Pest'' @ [CHR 0x0A] @ ''INVOICE #52359'' @ [CHR 0x0A] @ ''Subtotal $184.50'')]
     ''/in/scan.pdf'' True [] = (Inl (ValueError ''Could not find service date''), []) \<and>
   find_date_match (pages_text [Some ''PAYMENT AMOUNT $99.00'']) = None \<and>
   (\<exists>e. main True [Some ''PAYMENT AMOUNT $99.00''] Ocr_raises ''/in/receipt.pdf'' [] = (Inl e, []))"
proof -
  let ?pdf = "[Some (''Meriwether Pest'' @ [CHR 0x0A] @ ''INVOICE #52359'' @
        [CHR 0x0A] @ ''Subtotal $184.50'')]"
  let ?rpdf = "[Some ''PAYMENT AMOUNT $99.00'']"
  have a: "service_date_lookahead (\<lambda>s. None) (nonblank_lines (pages_text ?pdf)) = None"
    by code_simp
  have b: "first_line_match search_date_label (nonblank_lines (pages_text ?pdf)) = None"
    by code_simp
  have c: "find_date_match (pages_text ?rpdf) = None"
    by code_simp
  have hi: "service_date_lookahead (\<lambda>s. None) (nonblank_lines (pages_text ?pdf)) = None \<and>
    (\<forall>tok. first_line_match search_date_label (nonblank_lines (pages_text ?pdf)) = Some tok
           \<longrightarrow> isl (strptime_mdy tok))"
    unfolding b using a by simp
  have hr: "\<forall>raw. find_date_match (pages_text ?rpdf) = Some raw \<longrightarrow> isl (strptime_mdy raw)"
    unfolding c by simp
  note t = missing_date_is_terminal [of "\<lambda>s. None" ?pdf "''/in/scan.pdf''" True "[]"
      ?rpdf True Ocr_raises "''/in/receipt.pdf''" "[]"]
  from t have ti: "service_date_lookahead (\<lambda>s. None) (nonblank_lines (pages_text ?pdf)) = None \<and>
    (\<forall>tok. first_line_match search_date_label (nonblank_lines (pages_text ?pdf)) = Some tok
           \<longrightarrow> isl (strptime_mdy tok))
    \<longrightarrow> (\<exists>e. process_invoice (\<lambda>s. None) ?pdf ''/in/scan.pdf'' True [] = (Inl e, []) \<and>
             (first_line_match search_date_label (nonblank_lines (pages_text ?pdf)) = None
              \<longrightarrow> e = ValueError ''Could not find service date''))"
    by (rule conjunct1)
  from ti hi have "\<exists>e. process_invoice (\<lambda>s. None) ?pdf ''/in/scan.pdf'' True [] = (Inl e, []) \<and>
             (first_line_match search_date_label (nonblank_lines (pages_text ?pdf)) = None
              \<longrightarrow> e = ValueError ''Could not find service date'')"
    by (rule mp)
  then obtain e where e: "process_invoice (\<lambda>s. None) ?pdf ''/in/scan.pdf'' True [] = (Inl e, [])"
    and m: "first_line_match search_date_label (nonblank_lines (pages_text ?pdf)) = None
              \<longrightarrow> e = ValueError ''Could not find service date''"
    by (elim exE conjE)
  from m b have "e = ValueError ''Could not find service date''" by (rule mp)
  with e have 1: "process_invoice (\<lambda>s. None) ?pdf ''/in/scan.pdf'' True [] =
          (Inl (ValueError ''Could not find service date''), [])" by simp
  from t have tr: "(\<forall>raw. find_date_match (pages_text ?rpdf) = Some raw \<longrightarrow> isl (strptime_mdy raw))
    \<longrightarrow> (\<exists>e. main True ?rpdf Ocr_raises ''/in/receipt.pdf'' [] = (Inl e, []))"
    by (rule conjunct2)
  from tr hr have 2: "\<exists>e. main True ?rpdf Ocr_raises ''/in/receipt.pdf'' [] = (Inl e, [])"
    by (rule mp)
  show ?thesis by (intro conjI a b c 1 2)
qed

lemma extract_amount_fails:
  assumes "\<forall>label \<in> set amount_labels. search_amount label text = None"
  shows "extract_amount text = Inl (ValueError ''Could not find payment amount in receipt text.'')"
proof -
  from assms have "first_line_match (\<lambda>label. search_amount label text) amount_labels = None"
    by (simp only: first_line_match_None)
  then show ?thesis by (simp add: extract_amount_def)
qed

lemma fields_without_subtotal:
  assumes "\<forall>l \<in> set lines. search_subtotal l = None"
    and "find_service_date fuzzy lines = Inr dt"
  shows "\<exists>r. fields_of_lines fuzzy text lines = Inr r \<and> amount r = None \<and> service_date r = dt"
proof -
  from assms(1) have "first_line_match search_subtotal lines = None"
    by (simp only: first_line_match_None)
  with assms(2) show ?thesis by (simp add: fields_of_lines_def)
qed

text \<open>
  Claim C3. A receipt text in which none of the three amount labels is followed by a
  number makes \<open>extract_amount\<close>, and with it \<open>main\<close>, raise \<open>ValueError\<close>. An invoice
  without a Subtotal line, whose date is found, gives a record with no amount, and
  \<open>process_invoice\<close> completes; the absent amount raises nothing.
\<close>

theorem missing_amount_by_family:
  "((\<forall>label \<in> set amount_labels. search_amount label text = None) \<longrightarrow>
      extract_amount text =
        Inl (ValueError ''Could not find payment amount in receipt text.'') \<and>
      (text = pages_text rpdf \<longrightarrow>
         main True rpdf ocr rpath rfs =
           (Inl (ValueError ''Could not find payment amount in receipt text.''), rfs))) \<and>
   ((\<forall>l \<in> set (nonblank_lines (pages_text pdf)). search_subtotal l = None) \<and>
    find_service_date fuzzy (nonblank_lines (pages_text pdf)) = Inr dt \<longrightarrow>
      (\<exists>r. extract_invoice_fields fuzzy pdf = Inr r \<and> amount r = None \<and> service_date r = dt) \<and>
      (\<exists>out fs'. process_invoice fuzzy pdf pdf_path rename fs = (Inr out, fs')))"
proof (intro conjI impI)
  assume h: "\<forall>label \<in> set amount_labels. search_amount label text = None"
  then show a: "extract_amount text =
        Inl (ValueError ''Could not find payment amount in receipt text.'')"
    by (rule extract_amount_fails)
  assume "text = pages_text rpdf"
  with a show "main True rpdf ocr rpath rfs =
           (Inl (ValueError ''Could not find payment amount in receipt text.''), rfs)"
    by (simp add: main_def)
next
  let ?lines = "nonblank_lines (pages_text pdf)"
  assume h: "(\<forall>l \<in> set ?lines. search_subtotal l = None) \<and>
    find_service_date fuzzy ?lines = Inr dt"
  then have "\<exists>r. fields_of_lines fuzzy (pages_text pdf) ?lines = Inr r \<and> amount r = None \<and>
      service_date r = dt"
    by (intro fields_without_subtotal) simp_all
  then show r: "\<exists>r. extract_invoice_fields fuzzy pdf = Inr r \<and> amount r = None \<and> service_date r = dt"
    by (simp add: extract_invoice_fields_def Let_def)
  then obtain r where "extract_invoice_fields fuzzy pdf = Inr r" by (elim exE conjE)
  then show "\<exists>out fs'. process_invoice fuzzy pdf pdf_path rename fs = (Inr out, fs')"
    by (rule process_invoice_completes)
qed

theorem missing_amount_by_family_witness:
  "list_all (\<lambda>label. search_amount label ''no amount text'' = None) amount_labels \<and>
   extract_amount ''no amount text'' =
     Inl (ValueError ''Could not find payment amount in receipt text.'') \<and>
   main True [Some ''no amount text''] Ocr_raises ''/in/receipt.pdf'' [] =
     (Inl (ValueError ''Could not find payment amount in receipt text.''), []) \<and>
   list_all (\<lambda>l. search_subtotal l = None)
     (nonblank_lines (pages_text [Some (''Meriwether Pest'' @ [CHR 0x0A] @ ''INVOICE #52359'' @
        [CHR 0x0A] @ ''DATE 09/22/2025'')])) \<and>
   (\<exists>r. extract_invoice_fields (\<lambda>s. None)
          [Some (''Meriwether Pest'' @ [CHR 0x0A] @ ''INVOICE #52359'' @
             [CHR 0x0A] @ ''DATE 09/22/2025'')] = Inr r \<and> amount r = None) \<and>
   (\<exists>out fs'. process_invoice (\<lambda>s. None)
          [Some (''Meriwether Pest'' @ [CHR 0x0A] @ ''INVOICE #52359'' @
             [CHR 0x0A] @ ''DATE 09/22/2025'')] ''/in/scan.pdf'' True [] = (Inr out, fs'))"
proof -
  let ?pdf = "[Some (''Meriwether Pest'' @ [CHR 0x0A] @ ''INVOICE #52359'' @
             [CHR 0x0A] @ ''DATE 09/22/2025'')]"
  let ?dt = "\<lparr>year = 2025, month = 9, day = 22, hour = 0, minute = 0, second = 0\<rparr>"
  have a: "list_all (\<lambda>label. search_amount label ''no amount text'' = None) amount_labels"
    by code_simp
  then have a': "\<forall>label \<in> set amount_labels. search_amount label ''no amount text'' = None"
    by (simp only: list_all_iff)
  have p: "''no amount text'' = pages_text [Some ''no amount text'']" by code_simp
  have b: "list_all (\<lambda>l. search_subtotal l = None) (nonblank_lines (pages_text ?pdf))"
    by code_simp
  then have b': "\<forall>l \<in> set (nonblank_lines (pages_text ?pdf)). search_subtotal l = None"
    by (simp only: list_all_iff)
  have d: "find_service_date (\<lambda>s. None) (nonblank_lines (pages_text ?pdf)) = Inr ?dt"
    by code_simp
  note t = missing_amount_by_family [of "''no amount text''" "[Some ''no amount text'']"
      Ocr_raises "''/in/receipt.pdf''" "[]" ?pdf "\<lambda>s. None" ?dt "''/in/scan.pdf''" True "[]"]
  from t a' p have 1: "extract_amount ''no amount text'' =
     Inl (ValueError ''Could not find payment amount in receipt text.'')"
    and 2: "main True [Some ''no amount text''] Ocr_raises ''/in/receipt.pdf'' [] =
     (Inl (ValueError ''Could not find payment amount in receipt text.''), [])"
    by simp_all
  from b' d have bd: "(\<forall>l \<in> set (nonblank_lines (pages_text ?pdf)). search_subtotal l = None) \<and>
    find_service_date (\<lambda>s. None) (nonblank_lines (pages_text ?pdf)) = Inr ?dt" by (rule conjI)
  from t have "(\<forall>l \<in> set (nonblank_lines (pages_text ?pdf)). search_subtotal l = None) \<and>
    find_service_date (\<lambda>s. None) (nonblank_lines (pages_text ?pdf)) = Inr ?dt \<longrightarrow>
      (\<exists>r. extract_invoice_fields (\<lambda>s. None) ?pdf = Inr r \<and> amount r = None \<and> service_date r = ?dt) \<and>
      (\<exists>out fs'. process_invoice (\<lambda>s. None) ?pdf ''/in/scan.pdf'' True [] = (Inr out, fs'))"
    by (rule conjunct2)
  from this bd have c: "(\<exists>r. extract_invoice_fields (\<lambda>s. None) ?pdf = Inr r \<and> amount r = None \<and> service_date r = ?dt) \<and>
      (\<exists>out fs'. process_invoice (\<lambda>s. None) ?pdf ''/in/scan.pdf'' True [] = (Inr out, fs'))"
    by (rule mp)
  then have 3: "\<exists>r. extract_invoice_fields (\<lambda>s. None) ?pdf = Inr r \<and> amount r = None"
    by (elim conjE exE) (intro exI conjI)
  from c have 4: "\<exists>out fs'. process_invoice (\<lambda>s. None) ?pdf ''/in/scan.pdf'' True [] = (Inr out, fs')"
    by (rule conjunct2)
  show ?thesis by (intro conjI a b 1 2 3 4)
qed

text \<open>Claim C3 as it is written fails on an invoice without a Subtotal line that has no
  date either: the pipeline raises.\<close>

theorem invoice_without_subtotal_may_raise:
  "list_all (\<lambda>l. search_subtotal l = None)
     (nonblank_lines (pages_text [Some (''Meriwether Pest'' @ [CHR 0x0A] @ ''INVOICE #52359'')])) \<and>
   extract_invoice_fields (\<lambda>s. None) [Some (''Meriwether Pest'' @ [CHR 0x0A] @ ''INVOICE #52359'')] =
     Inl (ValueError ''Could not find service date'') \<and>
   process_invoice (\<lambda>s. None) [Some (''Meriwether Pest'' @ [CHR 0x0A] @ ''INVOICE #52359'')]
     ''/in/scan.pdf'' True [] = (Inl (ValueError ''Could not find service date''), [])"
  by code_simp

section \<open>The extension of the new file name\<close>

lemma path_join_suffix: "suffix e b \<Longrightarrow> suffix e (path_join a b)"
  by (auto simp: path_join_def suffix_def)

lemma build_new_filename_ext:
  "suffix (snd (splitext (basename p))) (build_new_filename p dt short num)"
  by (simp add: build_new_filename_def Let_def suffix_def split: prod.splits)

lemma build_new_filename_no_ext:
  assumes "snd (splitext (basename p)) = []"
  shows "build_new_filename p dt short num =
           strftime_ymd dt @ ''-'' @ sanitize_for_filename short @ ''-'' @
           (if num \<noteq> [] then ''Invoice #'' @ num else fst (splitext (basename p)))"
  using assms by (auto simp: build_new_filename_def Let_def split: prod.splits)

lemma process_invoice_ext:
  assumes "process_invoice fuzzy pdf p rename fs = (Inr out, fs')"
  shows "suffix (snd (splitext (basename p))) out"
proof -
  from assms obtain dt short num where
    "out = build_new_filename p dt short num \<or>
     out = path_join (dirname p) (build_new_filename p dt short num)"
    by (auto simp: process_invoice_def Let_def split: sum.splits if_splits)
  then show ?thesis
    using build_new_filename_ext [of p dt short num] by (auto intro: path_join_suffix)
qed

lemma main_ext:
  assumes "main isfile rpdf ocr rp rfs = (Inr res, rfs')"
  shows "suffix (if snd (splitext (path_tail rp)) = [] then ''.pdf''
                 else snd (splitext (path_tail rp))) (fileName res)"
proof -
  let ?ext = "if snd (splitext (path_tail rp)) = [] then ''.pdf'' else snd (splitext (path_tail rp))"
  from assms obtain d c where "fileName res = path_join (path_head rp) (d @ ''-'' @ c @ ?ext)"
    by (auto simp: main_def Let_def path_split_def split: sum.splits if_splits)
  moreover have "suffix ?ext (d @ ''-'' @ c @ ?ext)" by (simp add: suffix_def)
  ultimately show ?thesis by (simp only: path_join_suffix)
qed

text \<open>
  Claim C7, as the code has it. In both families the new file name ends with the
  extension of the source path as \<open>os.path.splitext\<close> gives it. When the source path has
  no extension, the receipt script puts \<open>.pdf\<close> in its place; the invoice script
  appends nothing.
\<close>

theorem new_filename_keeps_extension:
  "suffix (snd (splitext (basename p))) (build_new_filename p dt short num) \<and>
   (snd (splitext (basename p)) = [] \<longrightarrow>
      build_new_filename p dt short num =
        strftime_ymd dt @ ''-'' @ sanitize_for_filename short @ ''-'' @
        (if num \<noteq> [] then ''Invoice #'' @ num else fst (splitext (basename p)))) \<and>
   (process_invoice fuzzy pdf p rename fs = (Inr out, fs') \<longrightarrow>
      suffix (snd (splitext (basename p))) out) \<and>
   (main isfile rpdf ocr rp rfs = (Inr res, rfs') \<longrightarrow>
      suffix (if snd (splitext (path_tail rp)) = [] then ''.pdf''
              else snd (splitext (path_tail rp))) (fileName res))"
  by (intro conjI impI build_new_filename_ext build_new_filename_no_ext
        process_invoice_ext main_ext)

theorem new_filename_keeps_extension_witness:
  "snd (splitext (basename ''/in/scan.pdf'')) = ''.pdf'' \<and>
   process_invoice (\<lambda>s. None)
     [Some (''Meriwether Pest'' @ [CHR 0x0A] @ ''INVOICE #52359'' @ [CHR 0x0A] @ ''DATE 09/22/2025'')]
     ''/in/scan.pdf'' True [] =
     (Inr ''/in/2025-09-22-Meriwether-Invoice #52359.pdf'',
      [(''/in/scan.pdf'', ''/in/2025-09-22-Meriwether-Invoice #52359.pdf'')]) \<and>
   suffix ''.pdf'' ''/in/2025-09-22-Meriwether-Invoice #52359.pdf'' \<and>
   snd (splitext (basename ''/in/scan'')) = [] \<and>
   build_new_filename ''/in/scan''
     \<lparr>year = 2025, month = 9, day = 22, hour = 0, minute = 0, second = 0\<rparr> ''Meriwether'' [] =
     ''2025-09-22-Meriwether-scan'' \<and>
   snd (splitext (path_tail ''/receipts/scan'')) = [] \<and>
   main True [Some (''PAYMENT AMOUNT $99.00'' @ [CHR 0x0A] @ ''DATE 01/02/2025'')] Ocr_raises
     ''/receipts/scan'' [] =
     (Inr \<lparr>fileName = ''/receipts/2025-01-02-Northwest.pdf'', company = ''Northwest'',
            amount_paid = ''99.00'', date_iso = ''2025-01-02''\<rparr>,
      [(''/receipts/scan'', ''/receipts/2025-01-02-Northwest.pdf'')]) \<and>
   suffix ''.pdf'' ''/receipts/2025-01-02-Northwest.pdf''"
proof -
  let ?pdf = "[Some (''Meriwether Pest'' @ [CHR 0x0A] @ ''INVOICE #52359'' @ [CHR 0x0A] @
                 ''DATE 09/22/2025'')]"
  let ?rpdf = "[Some (''PAYMENT AMOUNT $99.00'' @ [CHR 0x0A] @ ''DATE 01/02/2025'')]"
  let ?dt = "\<lparr>year = 2025, month = 9, day = 22, hour = 0, minute = 0, second = 0\<rparr>"
  let ?res = "\<lparr>fileName = ''/receipts/2025-01-02-Northwest.pdf'', company = ''Northwest'',
            amount_paid = ''99.00'', date_iso = ''2025-01-02''\<rparr>"
  have e1: "snd (splitext (basename ''/in/scan.pdf'')) = ''.pdf''" by code_simp
  have p1: "process_invoice (\<lambda>s. None) ?pdf ''/in/scan.pdf'' True [] =
     (Inr ''/in/2025-09-22-Meriwether-Invoice #52359.pdf'',
      [(''/in/scan.pdf'', ''/in/2025-09-22-Meriwether-Invoice #52359.pdf'')])" by code_simp
  have e2: "snd (splitext (basename ''/in/scan'')) = []" by code_simp
  have e0: "fst (splitext (basename ''/in/scan'')) = ''scan''" by code_simp
  have f2: "strftime_ymd ?dt @ ''-'' @ sanitize_for_filename ''Meriwether'' @ ''-'' @ ''scan'' =
    ''2025-09-22-Meriwether-scan''" by code_simp
  have e3: "snd (splitext (path_tail ''/receipts/scan'')) = []" by code_simp
  have m3: "main True ?rpdf Ocr_raises ''/receipts/scan'' [] =
     (Inr ?res, [(''/receipts/scan'', ''/receipts/2025-01-02-Northwest.pdf'')])" by code_simp
  have "suffix (snd (splitext (basename ''/in/scan.pdf'')))
          ''/in/2025-09-22-Meriwether-Invoice #52359.pdf''"
    by (rule new_filename_keeps_extension
          [THEN conjunct2, THEN conjunct2, THEN conjunct1, THEN mp, OF p1])
  then have s1: "suffix ''.pdf'' ''/in/2025-09-22-Meriwether-Invoice #52359.pdf''"
    unfolding e1 .
  have "suffix (if snd (splitext (path_tail ''/receipts/scan'')) = [] then ''.pdf''
                else snd (splitext (path_tail ''/receipts/scan''))) (fileName ?res)"
    by (rule new_filename_keeps_extension
          [THEN conjunct2, THEN conjunct2, THEN conjunct2, THEN mp, OF m3])
  then have s3: "suffix ''.pdf'' ''/receipts/2025-01-02-Northwest.pdf''"
    unfolding e3 by simp
  have "build_new_filename ''/in/scan'' ?dt ''Meriwether'' [] =
        strftime_ymd ?dt @ ''-'' @ sanitize_for_filename ''Meriwether'' @ ''-'' @
        (if [] \<noteq> ([] :: string) then ''Invoice #'' @ [] else fst (splitext (basename ''/in/scan'')))"
    by (rule new_filename_keeps_extension [THEN conjunct2, THEN conjunct1, THEN mp, OF e2])
  then have b2: "build_new_filename ''/in/scan'' ?dt ''Meriwether'' [] = ''2025-09-22-Meriwether-scan''"
    unfolding e0 using f2 by simp
  show ?thesis by (intro conjI e1 p1 s1 e2 b2 e3 m3 s3)
qed

text \<open>Claim C7 as it is written fails on an invoice path without extension: no default
  extension is put in.\<close>

theorem invoice_without_extension_gets_none:
  "snd (splitext (basename ''/in/scan'')) = [] \<and>
   process_invoice (\<lambda>s. None)
     [Some (''Meriwether Pest'' @ [CHR 0x0A] @ ''INVOICE #52359'' @ [CHR 0x0A] @ ''DATE 09/22/2025'')]
     ''/in/scan'' True [] =
     (Inr ''/in/2025-09-22-Meriwether-Invoice #52359'',
      [(''/in/scan'', ''/in/2025-09-22-Meriwether-Invoice #52359'')]) \<and>
   snd (splitext ''/in/2025-09-22-Meriwether-Invoice #52359'') = []"
  by code_simp

section \<open>What the matcher captures\<close>

text \<open>The equation of \<open>Star\<close> mentions \<open>Star\<close> again, so it is unfolded by hand.\<close>

declare rmatch.simps(4) [simp del]

lemma rmatch_Sym_iff:
  "(b', a') \<in> set (rmatch (Sym P) (b, a)) \<longleftrightarrow> (\<exists>x. a = x # a' \<and> P x \<and> b' = x # b)"
  by (cases a) auto

lemma rmatch_Sym_snd:
  assumes "c' \<in> set (rmatch (Sym P) c)"
  shows "\<exists>x. snd c = x # snd c' \<and> P x"
proof -
  from assms have "(fst c', snd c') \<in> set (rmatch (Sym P) (fst c, snd c))" by simp
  then show ?thesis unfolding rmatch_Sym_iff by blast
qed

lemma rmatch_Star_Sym_Nil: "rmatch (Star (Sym P)) (b, []) = [(b, [])]"
  by (simp add: rmatch.simps(4))

lemma rmatch_Star_Sym_Cons:
  "rmatch (Star (Sym P)) (b, x # xs) =
     (if P x then rmatch (Star (Sym P)) (x # b, xs) @ [(b, x # xs)] else [(b, x # xs)])"
  by (simp only: rmatch.simps(4) [of "Sym P" "(b, x # xs)"] rmatch.simps(2) list.case snd_conv
        list.size length_Cons filter.simps map_append list.map concat.simps append_Nil2 lessI if_True
        split: if_split) (simp add: rmatch.simps(4))

lemma rmatch_Star_Sym:
  "c' \<in> set (rmatch (Star (Sym P)) (b, a)) \<Longrightarrow> \<exists>w. a = w @ snd c' \<and> list_all P w"
proof (induction a arbitrary: b)
  case Nil
  then show ?case by (simp only: rmatch_Star_Sym_Nil) simp
next
  case (Cons x xs)
  show ?case
  proof (cases "P x")
    case False
    with Cons.prems have "c' = (b, x # xs)" by (simp only: rmatch_Star_Sym_Cons) simp
    then have "x # xs = [] @ snd c' \<and> list_all P []" by simp
    then show ?thesis by blast
  next
    case True
    with Cons.prems have "c' \<in> set (rmatch (Star (Sym P)) (x # b, xs) @ [(b, x # xs)])"
      by (simp only: rmatch_Star_Sym_Cons if_True)
    then have "c' \<in> set (rmatch (Star (Sym P)) (x # b, xs)) \<or> c' = (b, x # xs)"
      by auto
    then show ?thesis
    proof
      assume "c' \<in> set (rmatch (Star (Sym P)) (x # b, xs))"
      from Cons.IH [OF this] obtain w where "xs = w @ snd c'" "list_all P w" by blast
      with True have "x # xs = (x # w) @ snd c' \<and> list_all P (x # w)" by simp
      then show ?thesis by blast
    next
      assume "c' = (b, x # xs)"
      then have "x # xs = [] @ snd c' \<and> list_all P []" by simp
      then show ?thesis by blast
    qed
  qed
qed

lemma rmatch_Star_Sym_snd:
  assumes "c' \<in> set (rmatch (Star (Sym P)) c)"
  shows "\<exists>w. snd c = w @ snd c' \<and> list_all P w"
proof -
  from assms have "c' \<in> set (rmatch (Star (Sym P)) (fst c, snd c))" by simp
  then show ?thesis by (rule rmatch_Star_Sym)
qed

lemma rmatch_Seq_elim:
  assumes "c' \<in> set (rmatch (Seq r1 r2) c)"
  obtains m where "m \<in> set (rmatch r1 c)" and "c' \<in> set (rmatch r2 m)"
  using assms by auto

lemma captured_append: "snd c1 = w @ snd c2 \<Longrightarrow> captured c1 c2 = w"
  by (simp add: captured_def)

lemma rx_money_shape:
  assumes "c2 \<in> set (rmatch rx_money c1)"
  shows "\<exists>w d1 d2. captured c1 c2 = w @ [CHR ''.'', d1, d2] \<and> w \<noteq> [] \<and>
           list_all (\<lambda>x. is_digit x \<or> x = CHR '','') w \<and> is_digit d1 \<and> is_digit d2"
proof -
  let ?P = "\<lambda>x. is_digit x \<or> x = CHR '',''"
  have unf: "rx_money = Seq (Seq (Sym ?P) (Star (Sym ?P)))
      (Seq (Sym (\<lambda>c. c = CHR ''.'')) (Seq (Sym is_digit) (Seq (Sym is_digit) Eps)))"
    by (simp add: rx_money_def seqs_def rx_plus_def chr_def rx_digit_def)
  from assms obtain cb where
    ab: "cb \<in> set (rmatch (Seq (Sym ?P) (Star (Sym ?P))) c1)" and
    r1: "c2 \<in> set (rmatch (Seq (Sym (\<lambda>c. c = CHR ''.''))
            (Seq (Sym is_digit) (Seq (Sym is_digit) Eps))) cb)"
    unfolding unf by (rule rmatch_Seq_elim)
  from ab obtain ca where
    a: "ca \<in> set (rmatch (Sym ?P) c1)" and b: "cb \<in> set (rmatch (Star (Sym ?P)) ca)"
    by (rule rmatch_Seq_elim)
  from r1 obtain cc where
    c: "cc \<in> set (rmatch (Sym (\<lambda>c. c = CHR ''.'')) cb)" and
    r2: "c2 \<in> set (rmatch (Seq (Sym is_digit) (Seq (Sym is_digit) Eps)) cc)"
    by (rule rmatch_Seq_elim)
  from r2 obtain cd where
    d: "cd \<in> set (rmatch (Sym is_digit) cc)" and
    r3: "c2 \<in> set (rmatch (Seq (Sym is_digit) Eps) cd)"
    by (rule rmatch_Seq_elim)
  from r3 obtain ce where
    e: "ce \<in> set (rmatch (Sym is_digit) cd)" and "c2 \<in> set (rmatch Eps ce)"
    by (rule rmatch_Seq_elim)
  then have e2: "c2 \<in> set (rmatch (Sym is_digit) cd)" by simp
  from rmatch_Sym_snd [OF a] obtain x where x: "snd c1 = x # snd ca" "?P x" by blast
  from rmatch_Star_Sym_snd [OF b] obtain w where w: "snd ca = w @ snd cb" "list_all ?P w" by blast
  from rmatch_Sym_snd [OF c] have p: "snd cb = CHR ''.'' # snd cc" by blast
  from rmatch_Sym_snd [OF d] obtain d1 where d1: "snd cc = d1 # snd cd" "is_digit d1" by blast
  from rmatch_Sym_snd [OF e2] obtain d2 where d2: "snd cd = d2 # snd c2" "is_digit d2" by blast
  have "snd c1 = ((x # w) @ [CHR ''.'', d1, d2]) @ snd c2"
    using x(1) w(1) p d1(1) d2(1) by simp
  then have "captured c1 c2 = (x # w) @ [CHR ''.'', d1, d2]" by (rule captured_append)
  moreover have "list_all ?P (x # w)" using x(2) w(2) by simp
  ultimately show ?thesis using d1(2) d2(2) by blast
qed

lemma match_here_Some:
  assumes "match_here p g cur = Some x"
  shows "\<exists>c1 c2. c2 \<in> set (rmatch g c1) \<and> x = captured c1 c2"
proof -
  from assms obtain xs where
    "concat (map (\<lambda>c1. map (captured c1) (rmatch g c1)) (rmatch p cur)) = x # xs"
    by (auto simp: match_here_def split: list.splits)
  then have "x \<in> set (concat (map (\<lambda>c1. map (captured c1) (rmatch g c1)) (rmatch p cur)))"
    by simp
  then show ?thesis by auto
qed

lemma re_search_from_Some:
  "re_search_from p g bef aft = Some x \<Longrightarrow> \<exists>c1 c2. c2 \<in> set (rmatch g c1) \<and> x = captured c1 c2"
proof (induction aft arbitrary: bef)
  case Nil
  then have "match_here p g (bef, []) = Some x" by simp
  then show ?case by (rule match_here_Some)
next
  case (Cons c cs)
  show ?case
  proof (cases "match_here p g (bef, c # cs)")
    case None
    with Cons.prems have "re_search_from p g (c # bef) cs = Some x" by simp
    then show ?thesis by (rule Cons.IH)
  next
    case (Some y)
    with Cons.prems have "match_here p g (bef, c # cs) = Some x" by simp
    then show ?thesis by (rule match_here_Some)
  qed
qed

lemma re_search_Some:
  "re_search p g s = Some x \<Longrightarrow> \<exists>c1 c2. c2 \<in> set (rmatch g c1) \<and> x = captured c1 c2"
  unfolding re_search_def by (rule re_search_from_Some)

lemma first_line_match_Some: "first_line_match f ls = Some g \<Longrightarrow> \<exists>l \<in> set ls. f l = Some g"
  by (induction ls) (auto split: option.splits)

lemma money_group_shape:
  assumes "re_search p rx_money s = Some g"
  shows "\<exists>w d1 d2. g = w @ [CHR ''.'', d1, d2] \<and> w \<noteq> [] \<and>
           list_all (\<lambda>x. is_digit x \<or> x = CHR '','') w \<and> is_digit d1 \<and> is_digit d2"
proof -
  from re_search_Some [OF assms] obtain c1 c2 where
    "c2 \<in> set (rmatch rx_money c1)" "g = captured c1 c2" by blast
  with rx_money_shape [of c2 c1] show ?thesis by simp
qed

lemma comma_not_digit: "is_digit c \<Longrightarrow> c \<noteq> CHR '',''"
  by (auto simp: is_digit_def)

lemma strip_commas:
  assumes "list_all (\<lambda>x. is_digit x \<or> x = CHR '','') w"
  shows "list_all is_digit (filter (\<lambda>c. c \<noteq> CHR '','') w)"
  using assms by (induction w) auto

section \<open>Amounts\<close>

lemma extract_amount_shape:
  assumes "extract_amount text = Inr a"
  shows "CHR '','' \<notin> set a \<and>
         (\<exists>ds d1 d2. a = ds @ [CHR ''.'', d1, d2] \<and> list_all is_digit ds \<and>
            is_digit d1 \<and> is_digit d2)"
proof -
  from assms obtain g where
    g: "first_line_match (\<lambda>label. search_amount label text) amount_labels = Some g"
    and a: "a = filter (\<lambda>c. c \<noteq> CHR '','') g"
    by (auto simp: extract_amount_def split: option.splits)
  from first_line_match_Some [OF g] obtain label where "search_amount label text = Some g" by blast
  then have "\<exists>w d1 d2. g = w @ [CHR ''.'', d1, d2] \<and> w \<noteq> [] \<and>
           list_all (\<lambda>x. is_digit x \<or> x = CHR '','') w \<and> is_digit d1 \<and> is_digit d2"
    unfolding search_amount_def by (rule money_group_shape)
  then obtain w d1 d2 where w: "g = w @ [CHR ''.'', d1, d2]"
    "list_all (\<lambda>x. is_digit x \<or> x = CHR '','') w" "is_digit d1" "is_digit d2" by blast
  have "a = filter (\<lambda>c. c \<noteq> CHR '','') w @ [CHR ''.'', d1, d2]"
    unfolding a w(1) using comma_not_digit [OF w(3)] comma_not_digit [OF w(4)] by simp
  moreover have "list_all is_digit (filter (\<lambda>c. c \<noteq> CHR '','') w)"
    using w(2) by (rule strip_commas)
  moreover have "CHR '','' \<notin> set a" unfolding a by simp
  ultimately show ?thesis using w(3,4) by blast
qed

lemma invoice_amount_shape:
  assumes "extract_invoice_fields fuzzy pdf = Inr r" and "amount r = Some g"
  shows "(\<exists>l \<in> set (nonblank_lines (pages_text pdf)). search_subtotal l = Some g) \<and>
         (\<exists>w d1 d2. g = w @ [CHR ''.'', d1, d2] \<and> w \<noteq> [] \<and>
            list_all (\<lambda>x. is_digit x \<or> x = CHR '','') w \<and> is_digit d1 \<and> is_digit d2)"
proof -
  from assms have "first_line_match search_subtotal (nonblank_lines (pages_text pdf)) = Some g"
    by (auto simp: extract_invoice_fields_def fields_of_lines_def Let_def split: sum.splits)
  from first_line_match_Some [OF this] obtain l where
    l: "l \<in> set (nonblank_lines (pages_text pdf))" "search_subtotal l = Some g" by blast
  from l(2) have "\<exists>w d1 d2. g = w @ [CHR ''.'', d1, d2] \<and> w \<noteq> [] \<and>
           list_all (\<lambda>x. is_digit x \<or> x = CHR '','') w \<and> is_digit d1 \<and> is_digit d2"
    unfolding search_subtotal_def by (rule money_group_shape)
  with l show ?thesis by blast
qed

text \<open>
  Claim C6, as the code has it. An amount that the receipt script returns has had its
  commas removed: it is a run of digits, a point and two digits. An amount
  that the invoice script returns is the text matched on a Subtotal line as it stands:
  digits and commas, a point and two digits; its commas are kept.
\<close>

theorem amount_shape_by_family:
  "(extract_amount text = Inr a \<longrightarrow>
      CHR '','' \<notin> set a \<and>
      (\<exists>ds d1 d2. a = ds @ [CHR ''.'', d1, d2] \<and> list_all is_digit ds \<and>
         is_digit d1 \<and> is_digit d2)) \<and>
   (extract_invoice_fields fuzzy pdf = Inr r \<and> amount r = Some g \<longrightarrow>
      (\<exists>l \<in> set (nonblank_lines (pages_text pdf)). search_subtotal l = Some g) \<and>
      (\<exists>w d1 d2. g = w @ [CHR ''.'', d1, d2] \<and> w \<noteq> [] \<and>
         list_all (\<lambda>x. is_digit x \<or> x = CHR '','') w \<and> is_digit d1 \<and> is_digit d2))"
proof (intro conjI impI)
  assume "extract_amount text = Inr a"
  then have s: "CHR '','' \<notin> set a \<and>
      (\<exists>ds d1 d2. a = ds @ [CHR ''.'', d1, d2] \<and> list_all is_digit ds \<and>
         is_digit d1 \<and> is_digit d2)" by (rule extract_amount_shape)
  from s show "CHR '','' \<notin> set a" by (rule conjunct1)
  from s show "\<exists>ds d1 d2. a = ds @ [CHR ''.'', d1, d2] \<and> list_all is_digit ds \<and>
         is_digit d1 \<and> is_digit d2" by (rule conjunct2)
next
  assume h: "extract_invoice_fields fuzzy pdf = Inr r \<and> amount r = Some g"
  then have e: "extract_invoice_fields fuzzy pdf = Inr r" and g: "amount r = Some g"
    by (rule conjunct1, rule conjunct2)
  note s = invoice_amount_shape [OF e g]
  from s show "\<exists>l \<in> set (nonblank_lines (pages_text pdf)). search_subtotal l = Some g"
    by (rule conjunct1)
  from s show "\<exists>w d1 d2. g = w @ [CHR ''.'', d1, d2] \<and> w \<noteq> [] \<and>
         list_all (\<lambda>x. is_digit x \<or> x = CHR '','') w \<and> is_digit d1 \<and> is_digit d2"
    by (rule conjunct2)
qed

theorem amount_shape_by_family_witness:
  "extract_amount (''PAYMENT AMOUNT $1,099.00'' @ [CHR 0x0A] @ ''DATE 01/02/2025'') = Inr ''1099.00'' \<and>
   CHR '','' \<notin> set ''1099.00'' \<and>
   (\<exists>ds d1 d2. ''1099.00'' = ds @ [CHR ''.'', d1, d2] \<and> list_all is_digit ds \<and>
      is_digit d1 \<and> is_digit d2) \<and>
   map_sum id amount (extract_invoice_fields (\<lambda>s. None)
     [Some (''Meriwether Pest'' @ [CHR 0x0A] @ ''INVOICE #52359'' @ [CHR 0x0A] @
            ''DATE 09/22/2025'' @ [CHR 0x0A] @ ''Subtotal $1,184.50'')]) = Inr (Some ''1,184.50'') \<and>
   (\<exists>w d1 d2. ''1,184.50'' = w @ [CHR ''.'', d1, d2] \<and> w \<noteq> [] \<and>
      list_all (\<lambda>x. is_digit x \<or> x = CHR '','') w \<and> is_digit d1 \<and> is_digit d2)"
proof -
  let ?pdf = "[Some (''Meriwether Pest'' @ [CHR 0x0A] @ ''INVOICE #52359'' @ [CHR 0x0A] @
            ''DATE 09/22/2025'' @ [CHR 0x0A] @ ''Subtotal $1,184.50'')]"
  let ?r = "\<lparr>company_name = Some ''Meriwether Pest'',
       service_date = \<lparr>year = 2025, month = 9, day = 22, hour = 0, minute = 0, second = 0\<rparr>,
       invoice_number = Some ''52359'', amount = Some ''1,184.50'',
       raw_text = pages_text ?pdf\<rparr>"
  have a: "extract_amount (''PAYMENT AMOUNT $1,099.00'' @ [CHR 0x0A] @ ''DATE 01/02/2025'') =
             Inr ''1099.00''" by code_simp
  have e: "extract_invoice_fields (\<lambda>s. None) ?pdf = Inr ?r" by code_simp
  have g: "amount ?r = Some ''1,184.50''" by simp
  from e have m: "map_sum id amount (extract_invoice_fields (\<lambda>s. None) ?pdf) =
      Inr (Some ''1,184.50'')" by simp
  note s1 = amount_shape_by_family [THEN conjunct1, THEN mp, OF a]
  note s2 = amount_shape_by_family [THEN conjunct2, THEN mp, OF conjI, OF e g]
  show ?thesis
    by (intro conjI a m s1 [THEN conjunct1] s1 [THEN conjunct2] s2 [THEN conjunct2])
qed

text \<open>Claim C6 as it is written fails on an invoice with a thousands separator in its
  Subtotal: the comma is returned.\<close>

theorem invoice_amount_keeps_comma:
  "map_sum id amount (extract_invoice_fields (\<lambda>s. None)
     [Some (''Meriwether Pest'' @ [CHR 0x0A] @ ''INVOICE #52359'' @ [CHR 0x0A] @
            ''DATE 09/22/2025'' @ [CHR 0x0A] @ ''Subtotal $1,184.50'')]) = Inr (Some ''1,184.50'') \<and>
   CHR '','' \<in> set ''1,184.50''"
  by code_simp

section \<open>The labelled date and the Subtotal of an invoice\<close>

lemma lookahead_without_service_date:
  "\<forall>x \<in> set lines. \<not> str_contains ''Service Date'' x \<Longrightarrow>
   service_date_lookahead fuzzy lines = None"
  by (induction lines) simp_all

text \<open>The labelled numeric strategy looks at one line only, the first that matches the
  label pattern: when \<open>strptime\<close> refuses its token the exception leaves the function,
  whatever later lines carry.\<close>

lemma refused_first_token_raises:
  assumes "service_date_lookahead fuzzy (nonblank_lines (pages_text pdf)) = None"
    and "nonblank_lines (pages_text pdf) = pre @ l # post"
    and "\<forall>x \<in> set pre. search_date_label x = None"
    and "search_date_label l = Some tok"
    and "strptime_mdy tok = Inl e"
  shows "extract_invoice_fields fuzzy pdf = Inl e"
proof -
  let ?lines = "nonblank_lines (pages_text pdf)"
  have "first_line_match search_date_label (pre @ l # post) = Some tok"
    using assms(3,4) by (rule first_line_match_first)
  then have d: "first_line_match search_date_label ?lines = Some tok"
    by (simp only: assms(2))
  have "find_service_date fuzzy ?lines = Inl e"
    unfolding find_service_date_def assms(1) d by (simp add: assms(5))
  then show ?thesis
    unfolding extract_invoice_fields_def fields_of_lines_def Let_def by simp
qed

text \<open>
  Claim C1, as the code has it. Let the lookahead after a \<open>Service Date\<close> line give no
  date (as when no line contains \<open>Service Date\<close>). Let \<open>l\<close> be the first line of the
  document that matches the date-label pattern (no line before it matches), with a
  token that \<open>strptime\<close> accepts, and let \<open>l'\<close> be the first line that matches the
  Subtotal pattern. Then the service date of the record is the strict parse of the
  token of \<open>l\<close> and the amount is the number of \<open>l'\<close> as it is written, whatever
  the other lines are: those before \<open>l\<close> and \<open>l'\<close> that do not match the pattern
  in question, and any lines after them.
\<close>

theorem labelled_date_and_subtotal_extracted:
  assumes "service_date_lookahead fuzzy (nonblank_lines (pages_text pdf)) = None"
    and "nonblank_lines (pages_text pdf) = pre @ l # post"
    and "\<forall>x \<in> set pre. search_date_label x = None"
    and "search_date_label l = Some tok"
    and "strptime_mdy tok = Inr dt"
    and "nonblank_lines (pages_text pdf) = pre' @ l' # post'"
    and "\<forall>x \<in> set pre'. search_subtotal x = None"
    and "search_subtotal l' = Some g"
  shows "\<exists>r. extract_invoice_fields fuzzy pdf = Inr r \<and> service_date r = dt \<and>
             amount r = Some g"
proof -
  let ?lines = "nonblank_lines (pages_text pdf)"
  have "first_line_match search_date_label (pre @ l # post) = Some tok"
    using assms(3,4) by (rule first_line_match_first)
  then have d: "first_line_match search_date_label ?lines = Some tok"
    by (simp only: assms(2))
  have "first_line_match search_subtotal (pre' @ l' # post') = Some g"
    using assms(7,8) by (rule first_line_match_first)
  then have s: "first_line_match search_subtotal ?lines = Some g"
    by (simp only: assms(6))
  have "find_service_date fuzzy ?lines = Inr dt"
    unfolding find_service_date_def assms(1) d by (simp add: assms(5))
  then show ?thesis
    unfolding extract_invoice_fields_def fields_of_lines_def Let_def by (simp add: s)
qed

theorem labelled_date_and_subtotal_extracted_witness:
  "nonblank_lines (pages_text
     [Some (''Meriwether Pest'' @ [CHR 0x0A] @ ''INVOICE #52359'' @ [CHR 0x0A] @
            ''PO # 7  DATE 09/22/2025'' @ [CHR 0x0A] @ ''Terms net 30'' @ [CHR 0x0A] @
            ''Subtotal $184.50'' @ [CHR 0x0A] @ ''Thank you'')]) =
     [''Meriwether Pest'', ''INVOICE #52359''] @ ''PO # 7  DATE 09/22/2025'' #
     [''Terms net 30'', ''Subtotal $184.50'', ''Thank you''] \<and>
   search_date_label ''PO # 7  DATE 09/22/2025'' = Some ''09/22/2025'' \<and>
   strptime_mdy ''09/22/2025'' =
     Inr \<lparr>year = 2025, month = 9, day = 22, hour = 0, minute = 0, second = 0\<rparr> \<and>
   search_subtotal ''Subtotal $184.50'' = Some ''184.50'' \<and>
   (\<exists>r. extract_invoice_fields (\<lambda>s. None)
     [Some (''Meriwether Pest'' @ [CHR 0x0A] @ ''INVOICE #52359'' @ [CHR 0x0A] @
            ''PO # 7  DATE 09/22/2025'' @ [CHR 0x0A] @ ''Terms net 30'' @ [CHR 0x0A] @
            ''Subtotal $184.50'' @ [CHR 0x0A] @ ''Thank you'')] = Inr r \<and>
      service_date r = \<lparr>year = 2025, month = 9, day = 22, hour = 0, minute = 0, second = 0\<rparr> \<and>
      amount r = Some ''184.50'')"
proof -
  let ?pdf = "[Some (''Meriwether Pest'' @ [CHR 0x0A] @ ''INVOICE #52359'' @ [CHR 0x0A] @
            ''PO # 7  DATE 09/22/2025'' @ [CHR 0x0A] @ ''Terms net 30'' @ [CHR 0x0A] @
            ''Subtotal $184.50'' @ [CHR 0x0A] @ ''Thank you'')]"
  have a: "service_date_lookahead (\<lambda>s. None) (nonblank_lines (pages_text ?pdf)) = None"
    by code_simp
  have b: "nonblank_lines (pages_text ?pdf) =
     [''Meriwether Pest'', ''INVOICE #52359''] @ ''PO # 7  DATE 09/22/2025'' #
     [''Terms net 30'', ''Subtotal $184.50'', ''Thank you'']" by code_simp
  have c: "\<forall>x \<in> set [''Meriwether Pest'', ''INVOICE #52359'']. search_date_label x = None"
    by code_simp
  have d: "search_date_label ''PO # 7  DATE 09/22/2025'' = Some ''09/22/2025''" by code_simp
  have e: "strptime_mdy ''09/22/2025'' =
     Inr \<lparr>year = 2025, month = 9, day = 22, hour = 0, minute = 0, second = 0\<rparr>" by code_simp
  have f: "nonblank_lines (pages_text ?pdf) =
     [''Meriwether Pest'', ''INVOICE #52359'', ''PO # 7  DATE 09/22/2025'', ''Terms net 30''] @
     ''Subtotal $184.50'' # [''Thank you'']" by code_simp
  have g: "\<forall>x \<in> set [''Meriwether Pest'', ''INVOICE #52359'', ''PO # 7  DATE 09/22/2025'',
      ''Terms net 30'']. search_subtotal x = None" by code_simp
  have h: "search_subtotal ''Subtotal $184.50'' = Some ''184.50''" by code_simp
  note t = labelled_date_and_subtotal_extracted [OF a b c d e f g h]
  show ?thesis by (intro conjI b d e h t)
qed

text \<open>Claim C1 as it is written fails on an invoice with an invoice date and a service
  date: the lookahead after \<open>Service Date\<close> decides, not the labelled numeric date. The
  line after \<open>Service Date\<close> holds the one date \<open>September 22, 2025\<close>, and the parser
  argument gives \<open>dateutil\<close>'s value for that string.\<close>

theorem service_date_lookahead_comes_first:
  "first_line_match search_date_label (nonblank_lines (pages_text
     [Some (''Meriwether Pest & Wildlife Control'' @ [CHR 0x0A] @ ''INVOICE #52359'' @ [CHR 0x0A] @
            ''DATE 09/30/2025'' @ [CHR 0x0A] @ ''Service Date'' @ [CHR 0x0A] @
            ''September 22, 2025'' @ [CHR 0x0A] @ ''Subtotal $184.50'')])) =
     Some ''09/30/2025'' \<and>
   strptime_mdy ''09/30/2025'' =
     Inr \<lparr>year = 2025, month = 9, day = 30, hour = 0, minute = 0, second = 0\<rparr> \<and>
   first_line_match search_subtotal (nonblank_lines (pages_text
     [Some (''Meriwether Pest & Wildlife Control'' @ [CHR 0x0A] @ ''INVOICE #52359'' @ [CHR 0x0A] @
            ''DATE 09/30/2025'' @ [CHR 0x0A] @ ''Service Date'' @ [CHR 0x0A] @
            ''September 22, 2025'' @ [CHR 0x0A] @ ''Subtotal $184.50'')])) =
     Some ''184.50'' \<and>
   map_sum id service_date (extract_invoice_fields
     (\<lambda>s. if s = ''September 22, 2025''
          then Some \<lparr>year = 2025, month = 9, day = 22, hour = 0, minute = 0, second = 0\<rparr>
          else None)
     [Some (''Meriwether Pest & Wildlife Control'' @ [CHR 0x0A] @ ''INVOICE #52359'' @ [CHR 0x0A] @
            ''DATE 09/30/2025'' @ [CHR 0x0A] @ ''Service Date'' @ [CHR 0x0A] @
            ''September 22, 2025'' @ [CHR 0x0A] @ ''Subtotal $184.50'')]) =
     Inr \<lparr>year = 2025, month = 9, day = 22, hour = 0, minute = 0, second = 0\<rparr>"
  by code_simp

end
